theory Spec2Isabelle
  imports Complex_Main "HOL-Library.Sublist" "HOL-Library.AList"
begin

section \<open>The offline manager: sync queue, retries and connectivity\<close>

text \<open>
  The class \<open>OfflineManager\<close> keeps a queue of item objects. The same object is reached
  from the queue, from the snapshot a running \<open>processSyncQueue\<close> iterates over, and
  from the closure of a retry timer, and it is mutated in place. The model therefore
  keeps the objects in a store (\<open>heap\<close>, a list indexed by reference); the queue, the
  snapshots and the timers hold references. A reference is allocated once, as the
  length of the store, and never reused.

  JavaScript runs one task at a time and suspends an \<open>async\<close> function at an
  \<open>await\<close>. Each event below is one such uninterrupted run: a handler called by the
  environment, or the continuation of a suspended task. \<open>syncItem\<close> awaits \<open>fetch\<close>
  and then \<open>response.json()\<close>, and \<open>processSyncQueue\<close> awaits \<open>syncItem\<close>; nothing is
  read or written between these resumptions, so the model settles a request with one
  \<open>outcome\<close> and runs the task on to its next call of \<open>fetch\<close> or to its end. Time is
  \<open>Date.now()\<close>, moved on by the event \<open>Tick\<close>; any order of events is allowed, except
  that a timer does not fire before it is due.

  Calls that only touch the page (\<open>updateConnectionUI\<close>, \<open>updateSyncStatus\<close>,
  \<open>showNotification\<close>, \<open>console.log\<close>) are left out, as is
  \<open>removeFromLocalStorage\<close>, which writes the keys \<open>pendingSOSAlerts\<close> and
  \<open>offlineVoiceQueries\<close> only; it is taken not to throw (the data of an item is an
  object and the two keys hold arrays).
\<close>

type_synonym ref = nat

text \<open>The fields \<open>id\<close>, \<open>type\<close>, \<open>data\<close> and \<open>method\<close> of an item carry the prefix
  \<open>item_\<close>; \<open>item_data\<close> is the text \<open>JSON.stringify\<close> gives for \<open>data\<close>, which is all
  the code does with it. The references held by the queue, the tasks and the timers are
  below the length of the store in every state the manager reaches.\<close>

record item =
  item_id :: rat
  item_type :: string
  item_data :: string
  endpoint :: string
  item_method :: string
  timestamp :: int
  retries :: nat
  status :: string
  completedAt :: "int option"

text \<open>How the request sent by \<open>syncItem\<close> ends: \<open>fetch\<close> rejects, the response is
  not \<open>ok\<close>, \<open>response.json()\<close> rejects, or the parsed result carries a truthy or
  falsy \<open>success\<close>.\<close>

datatype outcome = Rejected | NotOk | BadJson | Result bool

text \<open>A suspended task: a run of \<open>processSyncQueue\<close> waiting for the item it sent,
  with the rest of its snapshot, or a \<open>syncItem\<close> started by a retry timer.\<close>

datatype task = DrainTask ref "ref list" | RetryTask ref

record timer =
  delay :: int
  setAt :: int
  target :: ref

record fetch_call =
  for_item :: ref
  call_url :: string
  call_method :: string
  call_body :: string

text \<open>\<open>stored\<close> is the value under the key \<open>syncQueue\<close> of \<open>localStorage\<close>, \<open>clock\<close>
  is \<open>Date.now()\<close>. \<open>fetched\<close> lists the calls of \<open>fetch\<close> made by \<open>syncItem\<close> and
  \<open>drains\<close> counts the calls of \<open>processSyncQueue\<close>; both are observations, nothing
  reads them.\<close>

record state =
  isOnline :: bool
  heap :: "item list"
  syncQueue :: "ref list"
  stored :: "item list"
  clock :: int
  tasks :: "task list"
  timers :: "timer list"
  fetched :: "fetch_call list"
  drains :: nat

definition maxRetries :: nat where
  "maxRetries = 3"

definition retryDelay :: int where
  "retryDelay = 5000"

definition remove_nth :: "nat \<Rightarrow> 'a list \<Rightarrow> 'a list" where
  "remove_nth k xs = take k xs @ drop (Suc k) xs"

text \<open>The filter of \<open>saveSyncQueue\<close>. \<open>item.completedAt && ...\<close> is falsy for a missing
  \<open>completedAt\<close> and for \<open>0\<close>.\<close>

definition keep_item :: "int \<Rightarrow> item \<Rightarrow> bool" where
  "keep_item cutoffTime it \<longleftrightarrow>
     status it = ''pending'' \<or> status it = ''failed'' \<or>
     (case completedAt it of None \<Rightarrow> False | Some t \<Rightarrow> t \<noteq> 0 \<and> t > cutoffTime)"

definition saveSyncQueue :: "state \<Rightarrow> state" where
  "saveSyncQueue s =
     (let cutoffTime = clock s - 24 * 60 * 60 * 1000;
          q = filter (\<lambda>r. keep_item cutoffTime (heap s ! r)) (syncQueue s)
      in s\<lparr>syncQueue := q, stored := map (\<lambda>r. heap s ! r) q\<rparr>)"

text \<open>\<open>syncItem\<close> up to its first \<open>await\<close>: the call of \<open>fetch\<close>.\<close>

definition syncItem_send :: "ref \<Rightarrow> state \<Rightarrow> state" where
  "syncItem_send r s =
     (let it = heap s ! r
      in s\<lparr>fetched := fetched s @
           [\<lparr>for_item = r, call_url = endpoint it, call_method = item_method it,
             call_body = item_data it\<rparr>]\<rparr>)"

text \<open>\<open>syncItem\<close> after the request has settled: \<open>None\<close> is a thrown error.\<close>

definition syncItem_settle :: "ref \<Rightarrow> outcome \<Rightarrow> state \<Rightarrow> state option" where
  "syncItem_settle r out s =
     (case out of
        Result True \<Rightarrow>
          Some (s\<lparr>heap := (heap s)[r := (heap s ! r)\<lparr>status := ''completed'',
                                                  completedAt := Some (clock s)\<rparr>]\<rparr>)
      | _ \<Rightarrow> None)"

text \<open>The \<open>catch\<close> block of \<open>processSyncQueue\<close>.\<close>

definition catch_failure :: "ref \<Rightarrow> state \<Rightarrow> state" where
  "catch_failure r s =
     (let it = (heap s ! r)\<lparr>retries := retries (heap s ! r) + 1\<rparr>
      in if retries it \<ge> maxRetries
         then s\<lparr>heap := (heap s)[r := it\<lparr>status := ''failed''\<rparr>]\<rparr>
         else s\<lparr>heap := (heap s)[r := it],
                timers := timers s @
                  [\<lparr>delay = retryDelay * int (retries it), setAt = clock s, target = r\<rparr>]\<rparr>)"

text \<open>\<open>processSyncQueue\<close> from its call to its first \<open>await\<close>. With nothing pending the
  loop body never runs and the function finishes at once.\<close>

definition pendingItems :: "state \<Rightarrow> ref list" where
  "pendingItems s = filter (\<lambda>r. status (heap s ! r) = ''pending'') (syncQueue s)"

definition processSyncQueue :: "state \<Rightarrow> state" where
  "processSyncQueue s0 =
     (let s = s0\<lparr>drains := drains s0 + 1\<rparr>
      in if \<not> isOnline s \<or> length (syncQueue s) = 0 then s
         else case pendingItems s of
                [] \<Rightarrow> saveSyncQueue s
              | r # rs \<Rightarrow> (syncItem_send r s)\<lparr>tasks := tasks s @ [DrainTask r rs]\<rparr>)"

text \<open>The body of the loop of \<open>processSyncQueue\<close> once its request has settled:
  \<open>try { await this.syncItem(item) } catch ...\<close>.\<close>

definition drain_attempt :: "ref \<Rightarrow> outcome \<Rightarrow> state \<Rightarrow> state" where
  "drain_attempt cur out s =
     (case syncItem_settle cur out s of Some s' \<Rightarrow> s' | None \<Rightarrow> catch_failure cur s)"

text \<open>The \<open>syncItem\<close> started by a timer is awaited by nobody: its rejection is
  dropped.\<close>

definition retry_attempt :: "ref \<Rightarrow> outcome \<Rightarrow> state \<Rightarrow> state" where
  "retry_attempt cur out s =
     (case syncItem_settle cur out s of Some s' \<Rightarrow> s' | None \<Rightarrow> s)"

text \<open>The request of task \<open>k\<close> settles and the task runs to its next \<open>await\<close> or to its
  end, where \<open>processSyncQueue\<close> calls \<open>saveSyncQueue\<close>.\<close>

definition resume :: "nat \<Rightarrow> outcome \<Rightarrow> state \<Rightarrow> state" where
  "resume k out s =
     (if k < length (tasks s) then
        (case tasks s ! k of
           DrainTask cur rest \<Rightarrow>
             (let s1 = drain_attempt cur out s
              in case rest of
                   [] \<Rightarrow> saveSyncQueue (s1\<lparr>tasks := remove_nth k (tasks s1)\<rparr>)
                 | r # rs \<Rightarrow> (syncItem_send r s1)\<lparr>tasks := (tasks s1)[k := DrainTask r rs]\<rparr>)
         | RetryTask cur \<Rightarrow>
             (let s1 = retry_attempt cur out s
              in s1\<lparr>tasks := remove_nth k (tasks s1)\<rparr>))
      else s)"

text \<open>The callback of \<open>setTimeout\<close>; it cannot run before its delay has passed.\<close>

definition timerFire :: "nat \<Rightarrow> state \<Rightarrow> state" where
  "timerFire k s =
     (if k < length (timers s) \<and> setAt (timers s ! k) + delay (timers s ! k) \<le> clock s then
        (let t = timers s ! k; s1 = s\<lparr>timers := remove_nth k (timers s)\<rparr>
         in if isOnline s1
            then (syncItem_send (target t) s1)\<lparr>tasks := tasks s1 @ [RetryTask (target t)]\<rparr>
            else s1)
      else s)"

text \<open>\<open>id\<close> is \<open>Date.now() + Math.random()\<close>, a sum of doubles; the double it evaluates
  to is an input, \<open>new_id\<close>.\<close>

definition addToSyncQueue ::
  "string \<Rightarrow> string \<Rightarrow> string \<Rightarrow> string \<Rightarrow> rat \<Rightarrow> state \<Rightarrow> state" where
  "addToSyncQueue type data ep method new_id s =
     (let syncItem = \<lparr>item_id = new_id, item_type = type, item_data = data,
                      endpoint = ep, item_method = method, timestamp = clock s,
                      retries = 0, status = ''pending'', completedAt = None\<rparr>;
          s1 = saveSyncQueue (s\<lparr>heap := heap s @ [syncItem],
                                syncQueue := syncQueue s @ [length (heap s)]\<rparr>)
      in if isOnline s1 then processSyncQueue s1 else s1)"

definition handleOnline :: "state \<Rightarrow> state" where
  "handleOnline s = processSyncQueue (s\<lparr>isOnline := True\<rparr>)"

definition handleOffline :: "state \<Rightarrow> state" where
  "handleOffline s = s\<lparr>isOnline := False\<rparr>"

text \<open>The two intervals of \<open>setupPeriodicSync\<close>.\<close>

definition periodicSync :: "state \<Rightarrow> state" where
  "periodicSync s =
     (if isOnline s \<and> length (syncQueue s) > 0 then processSyncQueue s else s)"

definition periodicCleanup :: "state \<Rightarrow> state" where
  "periodicCleanup s = saveSyncQueue s"

definition forcSync :: "state \<Rightarrow> state" where
  "forcSync s = (if \<not> isOnline s then s else processSyncQueue s)"

text \<open>A page load: the constructor and \<open>initializeOfflineStores\<close>. The queue is parsed
  from \<open>localStorage\<close> into new objects; the tasks and timers of the old page are gone.\<close>

definition initial :: "bool \<Rightarrow> int \<Rightarrow> state" where
  "initial online now =
     \<lparr>isOnline = online, heap = [], syncQueue = [], stored = [], clock = now,
      tasks = [], timers = [], fetched = [], drains = 0\<rparr>"

definition reload :: "bool \<Rightarrow> state \<Rightarrow> state" where
  "reload online s =
     s\<lparr>isOnline := online, heap := heap s @ stored s,
       syncQueue := [length (heap s) ..< length (heap s) + length (stored s)],
       tasks := [], timers := []\<rparr>"

datatype event =
    Online | Offline
  | Add string string string string rat
  | PeriodicSync | PeriodicCleanup | ForceSync
  | Response nat outcome
  | TimerFire nat
  | Tick nat
  | Reload bool

fun step :: "event \<Rightarrow> state \<Rightarrow> state" where
  "step Online s = handleOnline s"
| "step Offline s = handleOffline s"
| "step (Add type data ep method new_id) s = addToSyncQueue type data ep method new_id s"
| "step PeriodicSync s = periodicSync s"
| "step PeriodicCleanup s = periodicCleanup s"
| "step ForceSync s = forcSync s"
| "step (Response k out) s = resume k out s"
| "step (TimerFire k) s = timerFire k s"
| "step (Tick d) s = s\<lparr>clock := clock s + int d\<rparr>"
| "step (Reload online) s = reload online s"

fun run :: "event list \<Rightarrow> state \<Rightarrow> state" where
  "run [] s = s"
| "run (e # es) s = run es (step e s)"

inductive reachable :: "state \<Rightarrow> bool" where
  reachable_initial: "reachable (initial online now)"
| reachable_step: "reachable s \<Longrightarrow> reachable (step e s)"

record stats =
  total :: nat
  pending :: nat
  completed :: nat
  failed :: nat
  stats_isOnline :: bool

definition getSyncStats :: "state \<Rightarrow> stats" where
  "getSyncStats s =
     \<lparr>total = length (syncQueue s),
      pending = length (filter (\<lambda>r. status (heap s ! r) = ''pending'') (syncQueue s)),
      completed = length (filter (\<lambda>r. status (heap s ! r) = ''completed'') (syncQueue s)),
      failed = length (filter (\<lambda>r. status (heap s ! r) = ''failed'') (syncQueue s)),
      stats_isOnline = isOnline s\<rparr>"

definition sends_of :: "ref \<Rightarrow> state \<Rightarrow> nat" where
  "sends_of r s = length (filter (\<lambda>c. for_item c = r) (fetched s))"

text \<open>The requests a suspended drain will still send for an item, and the events that
  are settled requests.\<close>

fun task_owed :: "ref \<Rightarrow> task \<Rightarrow> nat" where
  "task_owed r (DrainTask cur rest) = count_list rest r"
| "task_owed r (RetryTask cur) = 0"

definition owed :: "ref \<Rightarrow> state \<Rightarrow> nat" where
  "owed r s = sum_list (map (task_owed r) (tasks s))"

fun is_response :: "event \<Rightarrow> bool" where
  "is_response (Response k out) = True"
| "is_response _ = False"

subsection \<open>Pages and schedules of the examples\<close>

text \<open>A page that went offline and queued one alert.\<close>

definition one_pending :: state where
  "one_pending =
     run [Add ''sos-alert'' ''flood'' ''/api/sos'' ''POST'' (2001/2)] (initial False 1000)"

text \<open>A page that went offline and then queued five alerts, and two drains over them,
  both started before any request has settled: the first by the \<open>online\<close> event, the
  second by the manual sync button.\<close>

definition five_pending :: state where
  "five_pending =
     run [Add ''sos-alert'' ''flood'' ''/api/sos'' ''POST'' (2001/2),
          Add ''sos-alert'' ''fire'' ''/api/sos'' ''POST'' (4001/4),
          Add ''sos-alert'' ''pests'' ''/api/sos'' ''POST'' (4003/4),
          Add ''voice-query'' ''rain?'' ''/api/voice-query'' ''POST'' (8001/8),
          Add ''voice-query'' ''frost?'' ''/api/voice-query'' ''POST'' (8005/8)]
       (initial False 1000)"

definition both_drains_settle :: "event list" where
  "both_drains_settle =
     [Response 0 (Result True), Response 1 (Result True),
      Response 0 (Result True), Response 1 (Result True),
      Response 0 (Result True), Response 1 (Result True),
      Response 0 (Result True), Response 1 (Result True),
      Response 0 (Result True), Response 0 (Result True)]"

text \<open>One alert whose requests all fail, with the retry timers firing when they are
  due and the periodic sync every 30 seconds, up to the call of the third drain, and
  the same with the third failure; four drains started by the manual sync button before
  the first request has failed; an alert that fails once, is delivered by the next
  drain a second later, and whose retry timer is due at 5 seconds; an alert that fails
  in three drains within two seconds, with the first retry timer due afterwards.\<close>

definition three_failed_drains :: "event list" where
  "three_failed_drains =
     [Add ''sos-alert'' ''flood'' ''/api/sos'' ''POST'' (2001/2), Response 0 Rejected,
      Tick 5000, TimerFire 0, Response 0 Rejected,
      Tick 25000, PeriodicSync, Response 0 NotOk,
      Tick 10000, TimerFire 0, Response 0 Rejected,
      Tick 20000, PeriodicSync]"

definition three_drains_failed :: "event list" where
  "three_drains_failed = three_failed_drains @ [Response 0 Rejected]"

definition four_drains_at_once :: "event list" where
  "four_drains_at_once =
     [Add ''sos-alert'' ''flood'' ''/api/sos'' ''POST'' (2001/2), ForceSync, ForceSync, ForceSync,
      Response 0 Rejected, Response 0 Rejected, Response 0 Rejected, Response 0 Rejected]"

definition completed_before_retry :: "event list" where
  "completed_before_retry =
     [Add ''sos-alert'' ''flood'' ''/api/sos'' ''POST'' (2001/2), Response 0 Rejected,
      Tick 1000, ForceSync, Response 0 (Result True), Tick 4000]"

definition failed_before_retry :: "event list" where
  "failed_before_retry =
     [Add ''sos-alert'' ''flood'' ''/api/sos'' ''POST'' (2001/2), Response 0 Rejected,
      Tick 1000, ForceSync, Response 0 Rejected,
      Tick 1000, ForceSync, Response 0 Rejected, Tick 3000]"

text \<open>One alert, queued online: its first request fails, the retry timer fires when it
  is due, and the request of the retry fails as well.\<close>

definition retry_attempt_fails :: "event list" where
  "retry_attempt_fails =
     [Add ''sos-alert'' ''flood'' ''/api/sos'' ''POST'' (2001/2), Response 0 Rejected,
      Tick 5000, TimerFire 0, Response 0 Rejected]"

subsection \<open>Predicates of the proofs\<close>

text \<open>Every status is one of the three the code writes; a
  property of items holds of every object in the store and of every stored copy, and the
  queue refers to objects of the store.\<close>

definition status_ok :: "item \<Rightarrow> bool" where
  "status_ok it \<longleftrightarrow>
     status it = ''pending'' \<or> status it = ''completed'' \<or> status it = ''failed''"

definition all_items :: "(item \<Rightarrow> bool) \<Rightarrow> state \<Rightarrow> bool" where
  "all_items P s \<longleftrightarrow>
     (\<forall>r\<in>set (syncQueue s). r < length (heap s)) \<and>
     (\<forall>it\<in>set (heap s). P it) \<and> (\<forall>it\<in>set (stored s). P it)"

text \<open>Drains run one at a time when every event that can call \<open>processSyncQueue\<close>
  comes while no drain is suspended. Then at most one drain is in flight, its snapshot
  has no repetition, and the entries it still holds have fewer than \<open>maxRetries\<close>
  retries and are not failed.\<close>

definition item_bounded :: "item \<Rightarrow> bool" where
  "item_bounded it \<longleftrightarrow>
     retries it \<le> maxRetries \<and> (status it = ''pending'' \<longrightarrow> retries it < maxRetries)"

fun is_drain :: "task \<Rightarrow> bool" where
  "is_drain (DrainTask cur rest) = True"
| "is_drain (RetryTask cur) = False"

definition no_drain :: "state \<Rightarrow> bool" where
  "no_drain s \<longleftrightarrow> filter is_drain (tasks s) = []"

fun starts_drain :: "event \<Rightarrow> bool" where
  "starts_drain Online = True"
| "starts_drain (Add type data ep method new_id) = True"
| "starts_drain PeriodicSync = True"
| "starts_drain ForceSync = True"
| "starts_drain _ = False"

fun sequential :: "event list \<Rightarrow> state \<Rightarrow> bool" where
  "sequential [] s = True"
| "sequential (e # es) s = ((starts_drain e \<longrightarrow> no_drain s) \<and> sequential es (step e s))"

fun is_timer :: "event \<Rightarrow> bool" where
  "is_timer (TimerFire k) = True"
| "is_timer _ = False"

fun task_ok :: "item list \<Rightarrow> task \<Rightarrow> bool" where
  "task_ok h (DrainTask cur rest) =
     (distinct (cur # rest) \<and>
      (\<forall>c\<in>set (cur # rest).
         c < length h \<and> retries (h ! c) < maxRetries \<and> status (h ! c) \<noteq> ''failed''))"
| "task_ok h (RetryTask cur) = True"

definition drain_ok :: "state \<Rightarrow> bool" where
  "drain_ok s \<longleftrightarrow>
     length (filter is_drain (tasks s)) \<le> 1 \<and> (\<forall>t\<in>set (tasks s). task_ok (heap s) t)"

definition one_drain :: "state \<Rightarrow> bool" where
  "one_drain s \<longleftrightarrow> all_items item_bounded s \<and> distinct (syncQueue s) \<and> drain_ok s"

section \<open>The weather cache\<close>

text \<open>The key \<open>cachedWeatherData\<close> of \<open>localStorage\<close> holds nothing, or the \<open>[]\<close> that
  \<open>initializeOfflineStores\<close> writes under every key it finds empty, or the object written
  by \<open>cacheWeatherData\<close>: the data with \<open>cachedAt\<close>. \<open>Date.now()\<close> is an input.\<close>

datatype 'd cached_weather = EmptyArray | WeatherData 'd int

definition maxAge :: int where
  "maxAge = 6 * 60 * 60 * 1000"

text \<open>What \<open>initializeOfflineStores\<close> does to this key. The constructor of
  \<open>OfflineManager\<close> runs it on every page load, before the weather manager is used.\<close>

definition initializeOfflineStores_weather ::
  "'d cached_weather option \<Rightarrow> 'd cached_weather option" where
  "initializeOfflineStores_weather slot =
     (case slot of None \<Rightarrow> Some EmptyArray | Some v \<Rightarrow> Some v)"

definition cacheWeatherData ::
  "'d \<Rightarrow> int \<Rightarrow> 'd cached_weather option \<Rightarrow> 'd cached_weather option" where
  "cacheWeatherData data now slot = Some (WeatherData data now)"

text \<open>The result and the new content of the key; the result \<open>None\<close> is \<open>null\<close>. For the
  array, \<open>data.cachedAt\<close> is \<open>undefined\<close>, the age is \<open>NaN\<close> and \<open>NaN > maxAge\<close> is
  false.\<close>

definition getCachedWeatherData ::
  "int \<Rightarrow> 'd cached_weather option \<Rightarrow> 'd cached_weather option \<times> 'd cached_weather option" where
  "getCachedWeatherData now slot =
     (case slot of
        None \<Rightarrow> (None, slot)
      | Some EmptyArray \<Rightarrow> (Some EmptyArray, slot)
      | Some (WeatherData d cachedAt) \<Rightarrow>
          (let age = now - cachedAt
           in if age > maxAge then (None, None) else (Some (WeatherData d cachedAt), slot)))"

definition isCacheValid :: "int \<Rightarrow> 'd cached_weather option \<Rightarrow> bool" where
  "isCacheValid now slot \<longleftrightarrow> fst (getCachedWeatherData now slot) \<noteq> None"

section \<open>The service worker\<close>

text \<open>A response body is a text or the text \<open>JSON.stringify\<close> gives for a value; the
  body of a request is \<open>None\<close> when the request has none. What \<open>fetch\<close> does is an input
  \<open>net\<close>: \<open>None\<close> when it rejects. A cache maps the URL of a \<open>GET\<close> request to a
  response. The code calls \<open>cache.put\<close> without awaiting it: the call is recorded in
  \<open>puts\<close> and takes effect, or is refused, when it settles. IndexedDB is the list of
  the records of its store \<open>failedRequests\<close>, whose key is \<open>id\<close>; whether \<open>openDB\<close>
  succeeds is an input. \<open>fetches\<close> lists the requests passed to \<open>fetch\<close>; nothing reads
  it.\<close>

datatype json = JBool bool | JStr string | JArr "json list" | JObj "(string \<times> json) list"

datatype body = Text string | Json json

record response =
  resp_status :: nat
  resp_headers :: "(string \<times> string) list"
  resp_body :: body

record request =
  url :: string
  pathname :: string
  req_method :: string
  req_headers :: "(string \<times> string) list"
  req_body :: "string option"

record failed_request =
  fr_url :: string
  fr_method :: string
  fr_headers :: "(string \<times> string) list"
  fr_body :: string
  fr_timestamp :: int
  fr_id :: rat

datatype cache_name = STATIC_CACHE | DYNAMIC_CACHE

record cache_put =
  put_into :: cache_name
  put_request :: request
  put_response :: response

record sw_state =
  static_cache :: "string \<rightharpoonup> response"
  dynamic_cache :: "string \<rightharpoonup> response"
  puts :: "cache_put list"
  failedRequests :: "failed_request list"
  fetches :: "request list"

definition ok :: "response \<Rightarrow> bool" where
  "ok r \<longleftrightarrow> 200 \<le> resp_status r \<and> resp_status r \<le> 299"

text \<open>The names of headers are compared without regard to case, and \<open>headers.get\<close>
  joins the values of a name with a comma and a space.\<close>

definition lower :: "char \<Rightarrow> char" where
  "lower c =
     (case map_of (zip ''ABCDEFGHIJKLMNOPQRSTUVWXYZ'' ''abcdefghijklmnopqrstuvwxyz'') c of
        Some l \<Rightarrow> l
      | None \<Rightarrow> c)"

fun join_values :: "string list \<Rightarrow> string" where
  "join_values [] = []"
| "join_values [v] = v"
| "join_values (v # vs) = v @ '', '' @ join_values vs"

definition header_get :: "string \<Rightarrow> (string \<times> string) list \<Rightarrow> string option" where
  "header_get name hs =
     (case map snd (filter (\<lambda>h. map lower (fst h) = map lower name) hs) of
        [] \<Rightarrow> None
      | vs \<Rightarrow> Some (join_values vs))"

fun split_commas :: "string \<Rightarrow> string list" where
  "split_commas [] = [[]]"
| "split_commas (c # cs) =
     (if c = CHR '','' then [] # split_commas cs
      else (case split_commas cs of w # ws \<Rightarrow> (c # w) # ws | [] \<Rightarrow> [[c]]))"

definition trim :: "string \<Rightarrow> string" where
  "trim v =
     rev (dropWhile (\<lambda>c. c = CHR '' '' \<or> c = CHR 0x09)
       (rev (dropWhile (\<lambda>c. c = CHR '' '' \<or> c = CHR 0x09) v)))"

definition isStaticFile :: "request \<Rightarrow> bool" where
  "isStaticFile req \<longleftrightarrow>
     prefix ''/css/'' (pathname req) \<or>
     prefix ''/js/'' (pathname req) \<or>
     prefix ''/icons/'' (pathname req) \<or>
     suffix ''.png'' (pathname req) \<or>
     suffix ''.jpg'' (pathname req) \<or>
     suffix ''.jpeg'' (pathname req) \<or>
     suffix ''.svg'' (pathname req) \<or>
     suffix ''.ico'' (pathname req)"

definition isAPIRequest :: "request \<Rightarrow> bool" where
  "isAPIRequest req \<longleftrightarrow> prefix ''/api/'' (pathname req)"

definition isPageRequest :: "request \<Rightarrow> bool" where
  "isPageRequest req \<longleftrightarrow>
     (case header_get ''accept'' (req_headers req) of
        None \<Rightarrow> False
      | Some a \<Rightarrow> sublist ''text/html'' a)"

text \<open>\<open>caches.match\<close> looks through the caches in the order of their creation; the
  static cache is opened at installation. A stored response is found by the URL of the
  request.\<close>

definition caches_match :: "sw_state \<Rightarrow> string \<Rightarrow> response option" where
  "caches_match st u =
     (case static_cache st u of Some r \<Rightarrow> Some r | None \<Rightarrow> dynamic_cache st u)"

text \<open>\<open>cache.put\<close> rejects, and stores nothing, for a request that is not a \<open>GET\<close> over
  \<open>http\<close> or \<open>https\<close>, for a response of status 206 and for a response whose \<open>Vary\<close>
  header has the value \<open>*\<close>. The code does not catch the rejection.\<close>

definition vary_star :: "response \<Rightarrow> bool" where
  "vary_star r \<longleftrightarrow>
     (case header_get ''vary'' (resp_headers r) of
        None \<Rightarrow> False
      | Some v \<Rightarrow> ''*'' \<in> set (map trim (split_commas v)))"

definition storable :: "request \<Rightarrow> response \<Rightarrow> bool" where
  "storable req r \<longleftrightarrow>
     (prefix ''http://'' (url req) \<or> prefix ''https://'' (url req)) \<and>
     req_method req = ''GET'' \<and> resp_status r \<noteq> 206 \<and> \<not> vary_star r"

definition cache_put :: "cache_name \<Rightarrow> request \<Rightarrow> response \<Rightarrow> sw_state \<Rightarrow> sw_state" where
  "cache_put name req r st =
     st\<lparr>puts := puts st @ [\<lparr>put_into = name, put_request = req, put_response = r\<rparr>]\<rparr>"

text \<open>The put at position \<open>k\<close> settles.\<close>

definition put_settles :: "nat \<Rightarrow> sw_state \<Rightarrow> sw_state" where
  "put_settles k st =
     (if k < length (puts st) then
        (let p = puts st ! k;
             st1 = st\<lparr>puts := take k (puts st) @ drop (Suc k) (puts st)\<rparr>
         in if \<not> storable (put_request p) (put_response p) then st1
            else (case put_into p of
                    STATIC_CACHE \<Rightarrow>
                      st1\<lparr>static_cache :=
                            (static_cache st1)(url (put_request p) \<mapsto> put_response p)\<rparr>
                  | DYNAMIC_CACHE \<Rightarrow>
                      st1\<lparr>dynamic_cache :=
                            (dynamic_cache st1)(url (put_request p) \<mapsto> put_response p)\<rparr>))
      else st)"

definition fetch :: "(request \<Rightarrow> response option) \<Rightarrow> request \<Rightarrow> sw_state
    \<Rightarrow> response option \<times> sw_state" where
  "fetch net req st = (net req, st\<lparr>fetches := fetches st @ [req]\<rparr>)"

text \<open>A response made from a string with no \<open>Content-Type\<close> given carries
  \<open>text/plain;charset=UTF-8\<close>.\<close>

definition handleStaticFile :: "(request \<Rightarrow> response option) \<Rightarrow> request \<Rightarrow> sw_state
    \<Rightarrow> response \<times> sw_state" where
  "handleStaticFile net req st =
     (case caches_match st (url req) of
        Some cachedResponse \<Rightarrow> (cachedResponse, st)
      | None \<Rightarrow>
          (case fetch net req st of
             (Some networkResponse, st1) \<Rightarrow>
               (networkResponse,
                if ok networkResponse
                then cache_put STATIC_CACHE req networkResponse st1
                else st1)
           | (None, st1) \<Rightarrow>
               (\<lparr>resp_status = 503,
                 resp_headers = [(''content-type'', ''text/plain;charset=UTF-8'')],
                 resp_body = Text ''File not available offline''\<rparr>, st1)))"

definition handleOfflineAPIResponse :: "request \<Rightarrow> response" where
  "handleOfflineAPIResponse req =
     (if pathname req = ''/api/sync'' then
        \<lparr>resp_status = 200, resp_headers = [(''Content-Type'', ''application/json'')],
         resp_body = Json (JObj [(''success'', JBool True),
                                 (''data'', JObj [(''sos'', JArr []), (''queries'', JArr []),
                                                  (''weather'', JArr [])]),
                                 (''offline'', JBool True)])\<rparr>
      else if pathname req = ''/api/voice-query'' then
        \<lparr>resp_status = 200, resp_headers = [(''Content-Type'', ''application/json'')],
         resp_body = Json (JObj [(''success'', JBool True),
                                 (''response'', JStr (''I'' @ [CHR 0x27] @
                                    ''m currently offline. Your question has been saved and I'' @
                                    [CHR 0x27] @ ''ll respond when connectivity is restored.'')),
                                 (''offline'', JBool True)])\<rparr>
      else
        \<lparr>resp_status = 503, resp_headers = [(''Content-Type'', ''application/json'')],
         resp_body = Json (JObj [(''success'', JBool False),
                                 (''error'', JStr ''Service unavailable offline''),
                                 (''offline'', JBool True)])\<rparr>)"

text \<open>The result \<open>None\<close> is a handler that rejects. With a cached response the code
  calls \<open>headers.set\<close> on a clone of it; the headers of a response taken from a cache
  cannot be changed, the call throws inside the \<open>catch\<close> block and the handler
  rejects.\<close>

definition handleAPIRequest :: "(request \<Rightarrow> response option) \<Rightarrow> request \<Rightarrow> sw_state
    \<Rightarrow> response option \<times> sw_state" where
  "handleAPIRequest net req st =
     (case fetch net req st of
        (Some networkResponse, st1) \<Rightarrow>
          (Some networkResponse,
           if ok networkResponse
           then cache_put DYNAMIC_CACHE req networkResponse st1
           else st1)
      | (None, st1) \<Rightarrow>
          (case caches_match st1 (url req) of
             Some cachedResponse \<Rightarrow> (None, st1)
           | None \<Rightarrow> (Some (handleOfflineAPIResponse req), st1)))"

text \<open>\<open>caches.match('/') || new Response(...)\<close>: the promise on the left is truthy, so
  the result is what is cached for the start page, whose URL is the input \<open>root\<close>, or
  \<open>undefined\<close>. The results are a response, \<open>undefined\<close> or a rejection.\<close>

datatype answer = Respond response | RespondUndefined | RespondRejected | NotIntercepted

definition handlePageRequest ::
  "(request \<Rightarrow> response option) \<Rightarrow> string \<Rightarrow> request \<Rightarrow> sw_state \<Rightarrow> answer \<times> sw_state" where
  "handlePageRequest net root_url req st =
     (case fetch net req st of
        (Some networkResponse, st1) \<Rightarrow>
          (Respond networkResponse,
           if ok networkResponse
           then cache_put DYNAMIC_CACHE req networkResponse st1
           else st1)
      | (None, st1) \<Rightarrow>
          (case caches_match st1 (url req) of
             Some cachedResponse \<Rightarrow> (Respond cachedResponse, st1)
           | None \<Rightarrow>
               (case caches_match st1 root_url of
                  Some page \<Rightarrow> (Respond page, st1)
                | None \<Rightarrow> (RespondUndefined, st1))))"

definition handleOtherRequest :: "(request \<Rightarrow> response option) \<Rightarrow> request \<Rightarrow> sw_state
    \<Rightarrow> response \<times> sw_state" where
  "handleOtherRequest net req st =
     (case fetch net req st of
        (Some r, st1) \<Rightarrow> (r, st1)
      | (None, st1) \<Rightarrow>
          (\<lparr>resp_status = 503,
            resp_headers = [(''content-type'', ''text/plain;charset=UTF-8'')],
            resp_body = Text ''Request failed''\<rparr>, st1))"

text \<open>\<open>storeFailedRequest\<close> catches and logs the failure of \<open>openDB\<close>. The key \<open>id\<close> is
  \<open>Date.now() + Math.random()\<close>, a sum of doubles; the double it evaluates to is the
  input \<open>new_id\<close>. \<open>store.add\<close> does not replace a record that has the same key.\<close>

definition storeFailedRequest ::
  "bool \<Rightarrow> int \<Rightarrow> rat \<Rightarrow> request \<Rightarrow> string \<Rightarrow> sw_state \<Rightarrow> sw_state" where
  "storeFailedRequest db_opens now new_id req text st =
     (let record = \<lparr>fr_url = url req, fr_method = req_method req,
                     fr_headers = req_headers req, fr_body = text,
                     fr_timestamp = now, fr_id = new_id\<rparr>
      in if db_opens \<and> fr_id record \<notin> fr_id ` set (failedRequests st)
         then st\<lparr>failedRequests := failedRequests st @ [record]\<rparr>
         else st)"

text \<open>In its \<open>catch\<close> block \<open>handlePostRequest\<close> calls \<open>request.text()\<close> on the request
  it has passed to \<open>fetch\<close>, without a clone. \<open>fetch\<close> has taken the body of a request
  that has one, and reading it again rejects: the handler rejects, the result \<open>None\<close>.
  A request without a body reads as the empty text.\<close>

definition handlePostRequest ::
  "(request \<Rightarrow> response option) \<Rightarrow> bool \<Rightarrow> int \<Rightarrow> rat \<Rightarrow> request \<Rightarrow> sw_state
    \<Rightarrow> response option \<times> sw_state" where
  "handlePostRequest net db_opens now new_id req st =
     (case fetch net req st of
        (Some r, st1) \<Rightarrow> (Some r, st1)
      | (None, st1) \<Rightarrow>
          (case req_body req of
             Some consumed \<Rightarrow> (None, st1)
           | None \<Rightarrow>
               (Some \<lparr>resp_status = 202,
                      resp_headers = [(''Content-Type'', ''application/json'')],
                      resp_body = Json (JObj [(''success'', JBool False),
                                        (''message'', JStr ''Request queued for sync when online''),
                                        (''queued'', JBool True)])\<rparr>,
                storeFailedRequest db_opens now new_id req [] st1)))"

text \<open>The \<open>fetch\<close> listener. For a method other than \<open>GET\<close> and \<open>POST\<close> it does not call
  \<open>respondWith\<close> and the browser performs the request itself.\<close>

definition fetch_listener ::
  "(request \<Rightarrow> response option) \<Rightarrow> string \<Rightarrow> bool \<Rightarrow> int \<Rightarrow> rat \<Rightarrow> request \<Rightarrow> sw_state
    \<Rightarrow> answer \<times> sw_state" where
  "fetch_listener net root_url db_opens now new_id req st =
     (if req_method req = ''GET'' then
        (if isStaticFile req then
           (case handleStaticFile net req st of (r, st1) \<Rightarrow> (Respond r, st1))
         else if isAPIRequest req then
           (case handleAPIRequest net req st of
              (Some r, st1) \<Rightarrow> (Respond r, st1)
            | (None, st1) \<Rightarrow> (RespondRejected, st1))
         else if isPageRequest req then handlePageRequest net root_url req st
         else
           (case handleOtherRequest net req st of (r, st1) \<Rightarrow> (Respond r, st1)))
      else if req_method req = ''POST'' then
        (case handlePostRequest net db_opens now new_id req st of
           (Some r, st1) \<Rightarrow> (Respond r, st1)
         | (None, st1) \<Rightarrow> (RespondRejected, st1))
      else (NotIntercepted, st))"

text \<open>Requests and networks for the examples: no connection at all, a server that has
  the style sheet, and a server that answers a request for a range of an image with
  status 206.\<close>

definition offline_net :: "request \<Rightarrow> response option" where
  "offline_net req = None"

definition start_page :: string where
  "start_page = ''https://agriecho.example/''"

definition empty_sw :: sw_state where
  "empty_sw =
     \<lparr>static_cache = Map.empty, dynamic_cache = Map.empty, puts = [], failedRequests = [],
      fetches = []\<rparr>"

definition get_sync :: request where
  "get_sync = \<lparr>url = ''https://agriecho.example/api/sync'', pathname = ''/api/sync'',
                req_method = ''GET'', req_headers = [(''accept'', ''application/json'')],
                req_body = None\<rparr>"

definition get_css :: request where
  "get_css = \<lparr>url = ''https://agriecho.example/css/app.css'', pathname = ''/css/app.css'',
               req_method = ''GET'', req_headers = [(''accept'', ''text/css'')],
               req_body = None\<rparr>"

definition css_response :: response where
  "css_response = \<lparr>resp_status = 200, resp_headers = [(''content-type'', ''text/css'')],
                    resp_body = Text ''body { }''\<rparr>"

definition css_net :: "request \<Rightarrow> response option" where
  "css_net req =
     (if url req = ''https://agriecho.example/css/app.css'' then Some css_response else None)"

definition get_image_range :: request where
  "get_image_range =
     \<lparr>url = ''https://agriecho.example/icons/icon-512.png'', pathname = ''/icons/icon-512.png'',
      req_method = ''GET'', req_headers = [(''range'', ''bytes=0-1023'')], req_body = None\<rparr>"

definition partial_image :: response where
  "partial_image =
     \<lparr>resp_status = 206,
      resp_headers = [(''content-type'', ''image/png''), (''content-range'', ''bytes 0-1023/4096'')],
      resp_body = Text ''...''\<rparr>"

definition range_net :: "request \<Rightarrow> response option" where
  "range_net req =
     (if url req = ''https://agriecho.example/icons/icon-512.png'' then Some partial_image
      else None)"

definition post_sos :: request where
  "post_sos =
     \<lparr>url = ''https://agriecho.example/api/sos'', pathname = ''/api/sos'',
      req_method = ''POST'', req_headers = [(''content-type'', ''application/json'')],
      req_body = Some ''{}''\<rparr>"

section \<open>Properties of the sync queue\<close>

subsection \<open>What each part of the manager leaves alone\<close>

lemma saveSyncQueue_frame [simp]:
  "isOnline (saveSyncQueue s) = isOnline s"
  "heap (saveSyncQueue s) = heap s"
  "clock (saveSyncQueue s) = clock s"
  "tasks (saveSyncQueue s) = tasks s"
  "timers (saveSyncQueue s) = timers s"
  "fetched (saveSyncQueue s) = fetched s"
  "drains (saveSyncQueue s) = drains s"
  by (simp_all add: saveSyncQueue_def Let_def)

lemma syncItem_send_frame [simp]:
  "isOnline (syncItem_send r s) = isOnline s"
  "heap (syncItem_send r s) = heap s"
  "syncQueue (syncItem_send r s) = syncQueue s"
  "stored (syncItem_send r s) = stored s"
  "clock (syncItem_send r s) = clock s"
  "tasks (syncItem_send r s) = tasks s"
  "timers (syncItem_send r s) = timers s"
  "drains (syncItem_send r s) = drains s"
  by (simp_all add: syncItem_send_def Let_def)

lemma sends_of_syncItem_send [simp]:
  "sends_of r (syncItem_send c s) = sends_of r s + (if c = r then 1 else 0)"
  by (simp add: sends_of_def syncItem_send_def Let_def)

lemma catch_failure_frame [simp]:
  "isOnline (catch_failure r s) = isOnline s"
  "syncQueue (catch_failure r s) = syncQueue s"
  "stored (catch_failure r s) = stored s"
  "clock (catch_failure r s) = clock s"
  "tasks (catch_failure r s) = tasks s"
  "fetched (catch_failure r s) = fetched s"
  "drains (catch_failure r s) = drains s"
  "length (heap (catch_failure r s)) = length (heap s)"
  by (simp_all add: catch_failure_def Let_def)

lemma drain_attempt_frame [simp]:
  "isOnline (drain_attempt r out s) = isOnline s"
  "syncQueue (drain_attempt r out s) = syncQueue s"
  "stored (drain_attempt r out s) = stored s"
  "clock (drain_attempt r out s) = clock s"
  "tasks (drain_attempt r out s) = tasks s"
  "fetched (drain_attempt r out s) = fetched s"
  "drains (drain_attempt r out s) = drains s"
  "length (heap (drain_attempt r out s)) = length (heap s)"
  by (simp_all add: drain_attempt_def syncItem_settle_def split: outcome.splits bool.splits)

lemma retry_attempt_frame [simp]:
  "isOnline (retry_attempt r out s) = isOnline s"
  "syncQueue (retry_attempt r out s) = syncQueue s"
  "stored (retry_attempt r out s) = stored s"
  "clock (retry_attempt r out s) = clock s"
  "tasks (retry_attempt r out s) = tasks s"
  "timers (retry_attempt r out s) = timers s"
  "fetched (retry_attempt r out s) = fetched s"
  "drains (retry_attempt r out s) = drains s"
  "length (heap (retry_attempt r out s)) = length (heap s)"
  by (simp_all add: retry_attempt_def syncItem_settle_def split: outcome.splits bool.splits)

lemma sends_of_frame [simp]:
  "sends_of r (saveSyncQueue s) = sends_of r s"
  "sends_of r (drain_attempt c out s) = sends_of r s"
  "sends_of r (retry_attempt c out s) = sends_of r s"
  "sends_of r (s\<lparr>tasks := ts\<rparr>) = sends_of r s"
  "sends_of r (s\<lparr>drains := n\<rparr>) = sends_of r s"
  by (simp_all add: sends_of_def)

text \<open>The three shapes of a settled request.\<close>

lemma resume_retry:
  "k < length (tasks s) \<Longrightarrow> tasks s ! k = RetryTask cur \<Longrightarrow>
   resume k out s = (retry_attempt cur out s)\<lparr>tasks := remove_nth k (tasks s)\<rparr>"
  by (simp add: resume_def Let_def)

lemma resume_drain_last:
  "k < length (tasks s) \<Longrightarrow> tasks s ! k = DrainTask cur [] \<Longrightarrow>
   resume k out s =
   saveSyncQueue ((drain_attempt cur out s)\<lparr>tasks := remove_nth k (tasks s)\<rparr>)"
  by (simp add: resume_def Let_def)

lemma resume_drain_more:
  "k < length (tasks s) \<Longrightarrow> tasks s ! k = DrainTask cur (c # cs) \<Longrightarrow>
   resume k out s =
   (syncItem_send c (drain_attempt cur out s))\<lparr>tasks := (tasks s)[k := DrainTask c cs]\<rparr>"
  by (simp add: resume_def Let_def)

lemma resume_none: "\<not> k < length (tasks s) \<Longrightarrow> resume k out s = s"
  by (simp add: resume_def)

lemma isOnline_resume [simp]: "isOnline (resume k out s) = isOnline s"
proof (cases "k < length (tasks s)")
  case False
  then show ?thesis by (simp add: resume_none)
next
  case True
  then show ?thesis
    by (cases "tasks s ! k"; cases "case tasks s ! k of DrainTask c rest \<Rightarrow> rest | _ \<Rightarrow> []")
       (simp_all add: resume_retry resume_drain_last resume_drain_more)
qed

subsection \<open>Counting the requests of the drains in flight\<close>

lemma sum_list_remove_nth:
  fixes f :: "'a \<Rightarrow> nat"
  assumes "k < length xs"
  shows "sum_list (map f (remove_nth k xs)) + f (xs ! k) = sum_list (map f xs)"
proof -
  have "sum_list (map f xs) = sum_list (map f (take k xs @ xs ! k # drop (Suc k) xs))"
    using assms by (simp add: id_take_nth_drop [symmetric])
  then show ?thesis by (simp add: remove_nth_def)
qed

lemma sum_list_update_nth:
  fixes f :: "'a \<Rightarrow> nat"
  assumes "k < length xs"
  shows "sum_list (map f (xs[k := y])) + f (xs ! k) = sum_list (map f xs) + f y"
proof -
  have "sum_list (map f xs) = sum_list (map f (take k xs @ xs ! k # drop (Suc k) xs))"
    using assms by (simp add: id_take_nth_drop [symmetric])
  then show ?thesis using assms by (simp add: upd_conv_take_nth_drop)
qed

lemma sends_owed_resume:
  "sends_of r (resume k out s) + owed r (resume k out s) = sends_of r s + owed r s"
proof (cases "k < length (tasks s)")
  case False
  then show ?thesis by (simp add: resume_none)
next
  case k: True
  show ?thesis
  proof (cases "tasks s ! k")
    case (RetryTask cur)
    then show ?thesis
      using k sum_list_remove_nth [of k "tasks s" "task_owed r"]
      by (simp add: resume_retry owed_def)
  next
    case (DrainTask cur rest)
    show ?thesis
    proof (cases rest)
      case Nil
      then show ?thesis
        using k DrainTask sum_list_remove_nth [of k "tasks s" "task_owed r"]
        by (simp add: resume_drain_last owed_def)
    next
      case (Cons c cs)
      then show ?thesis
        using k DrainTask sum_list_update_nth [of k "tasks s" "task_owed r" "DrainTask c cs"]
        by (auto simp: resume_drain_more owed_def split: if_splits)
    qed
  qed
qed

lemma responses_only:
  assumes "\<forall>e\<in>set evs. is_response e"
  shows "sends_of r (run evs s) + owed r (run evs s) = sends_of r s + owed r s"
    and "isOnline (run evs s) = isOnline s"
  using assms
proof (induction evs arbitrary: s)
  case Nil
  { case 1 show ?case by simp }
  { case 2 show ?case by simp }
next
  case (Cons e es)
  { case 1
    then obtain k out where e: "e = Response k out" by (cases e) auto
    show ?case using Cons.IH(1) [of "step e s"] 1 by (simp add: e sends_owed_resume) }
  { case 2
    then obtain k out where e: "e = Response k out" by (cases e) auto
    show ?case using Cons.IH(2) [of "step e s"] 2 by (simp add: e) }
qed

lemma sends_owed_processSyncQueue:
  "isOnline s \<Longrightarrow>
   sends_of r (processSyncQueue s) + owed r (processSyncQueue s) =
   sends_of r s + owed r s + count_list (pendingItems s) r"
  by (auto simp: processSyncQueue_def Let_def pendingItems_def owed_def split: list.splits)

lemma isOnline_processSyncQueue [simp]: "isOnline (processSyncQueue s) = isOnline s"
  by (simp add: processSyncQueue_def Let_def split: list.splits)

subsection \<open>Two drains over the same entries\<close>

text \<open>
  C1, as amended. A drain sends one request for every entry of its own snapshot, the
  entries that are pending in the queue when it is called, whatever the outcomes and
  however the settled requests of the two drains interleave. Starting from a page that
  is online with nothing in flight, a drain is called, some of its requests settle, a
  second drain is called, and all requests settle until no task is left: the number of
  requests sent for an entry \<open>r\<close> has grown by the number of times \<open>r\<close> is in the first
  snapshot plus the number of times it is in the second. An entry still pending when
  the second drain is called is therefore sent by both.
\<close>

theorem each_drain_sends_its_snapshot:
  assumes "isOnline s" and "tasks s = []"
    and "\<forall>e\<in>set evs1. is_response e" and "\<forall>e\<in>set evs2. is_response e"
    and "s2 = run evs1 (processSyncQueue s)"
    and "s4 = run evs2 (processSyncQueue s2)"
    and "tasks s4 = []"
  shows "sends_of r s4 =
         sends_of r s + count_list (pendingItems s) r + count_list (pendingItems s2) r"
proof -
  have 0: "owed r s = 0" "owed r s4 = 0"
    using assms(2,7) by (simp_all add: owed_def)
  have 1: "sends_of r (processSyncQueue s) + owed r (processSyncQueue s) =
           sends_of r s + count_list (pendingItems s) r"
    using sends_owed_processSyncQueue [OF assms(1), of r] 0 by simp
  have 2: "sends_of r s2 + owed r s2 = sends_of r s + count_list (pendingItems s) r"
    using responses_only(1) [OF assms(3), of r "processSyncQueue s"] 1 assms(5) by simp
  have on2: "isOnline s2"
    using responses_only(2) [OF assms(3), of "processSyncQueue s"] assms(1,5) by simp
  have 3: "sends_of r (processSyncQueue s2) + owed r (processSyncQueue s2) =
           sends_of r s + count_list (pendingItems s) r + count_list (pendingItems s2) r"
    using sends_owed_processSyncQueue [OF on2, of r] 2 by simp
  show ?thesis
    using responses_only(1) [OF assms(4), of r "processSyncQueue s2"] 3 assms(6) 0 by simp
qed

text \<open>
  The theorem at the five queued entries: the page comes back online, the first drain
  is called, the second is called before any request has settled, and the ten requests
  settle in turn. The last entry has been sent twice.
\<close>

theorem each_drain_sends_its_snapshot_witness:
  "isOnline (five_pending\<lparr>isOnline := True\<rparr>) \<and>
   tasks (five_pending\<lparr>isOnline := True\<rparr>) = [] \<and>
   tasks (run both_drains_settle
           (processSyncQueue (run [] (processSyncQueue (five_pending\<lparr>isOnline := True\<rparr>))))) = [] \<and>
   sends_of 4 (run both_drains_settle
           (processSyncQueue (run [] (processSyncQueue (five_pending\<lparr>isOnline := True\<rparr>))))) =
   sends_of 4 (five_pending\<lparr>isOnline := True\<rparr>) + 2"
proof -
  let ?s = "five_pending\<lparr>isOnline := True\<rparr>"
  let ?s2 = "run [] (processSyncQueue ?s)"
  let ?s4 = "run both_drains_settle (processSyncQueue ?s2)"
  have h1: "isOnline ?s" by simp
  have h2: "tasks ?s = []" by code_simp
  have h3: "\<forall>e\<in>set []. is_response e" by simp
  have h4: "\<forall>e\<in>set both_drains_settle. is_response e"
    by (simp add: both_drains_settle_def)
  have h7: "tasks ?s4 = []" by code_simp
  have c1: "count_list (pendingItems ?s) 4 = 1" by code_simp
  have c2: "count_list (pendingItems ?s2) 4 = 1" by code_simp
  have "sends_of 4 ?s4 =
        sends_of 4 ?s + count_list (pendingItems ?s) 4 + count_list (pendingItems ?s2) 4"
    using h1 h2 h3 h4 refl refl h7 by (rule each_drain_sends_its_snapshot)
  then show ?thesis using h1 h2 h7 c1 c2 by simp
qed

text \<open>
  C1 as stated fails: with five pending entries, the \<open>online\<close> event and the manual sync
  both start a drain before any request has settled, every request succeeds, and the
  fifth entry is sent to the endpoint twice, not once.
\<close>

theorem interleaved_drains_counterexample:
  "sends_of 4 (run (Online # ForceSync # both_drains_settle) five_pending) = 2"
  by code_simp

subsection \<open>Connectivity notifications\<close>

lemma drains_processSyncQueue [simp]: "drains (processSyncQueue s) = drains s + 1"
  by (simp add: processSyncQueue_def Let_def split: list.splits)

text \<open>
  C4, as amended. Every \<open>online\<close> notification sets \<open>isOnline\<close> and calls the drain
  once, whether or not the manager was online already: the handler keeps no record of
  the state it is notified of, and with an entry pending the drain sends the request
  for the first pending entry and is suspended on it. An \<open>offline\<close> notification
  clears \<open>isOnline\<close>, calls no drain, sends nothing and starts no task.
\<close>

theorem online_notification_always_drains:
  "drains (handleOnline s) = drains s + 1 \<and> isOnline (handleOnline s) \<and>
   (pendingItems s = r # rs \<longrightarrow>
      sends_of r (handleOnline s) = sends_of r s + 1 \<and>
      tasks (handleOnline s) = tasks s @ [DrainTask r rs]) \<and>
   drains (handleOffline s) = drains s \<and> \<not> isOnline (handleOffline s) \<and>
   fetched (handleOffline s) = fetched s \<and> tasks (handleOffline s) = tasks s"
proof -
  have "pendingItems s = r # rs \<Longrightarrow>
      processSyncQueue (s\<lparr>isOnline := True\<rparr>) =
      (syncItem_send r (s\<lparr>isOnline := True, drains := drains s + 1\<rparr>))
        \<lparr>tasks := tasks s @ [DrainTask r rs]\<rparr>"
    by (auto simp: processSyncQueue_def pendingItems_def Let_def)
  then show ?thesis
    by (simp add: handleOnline_def handleOffline_def sends_of_def syncItem_send_def Let_def)
qed

text \<open>The theorem at a page with one entry queued, notified twice that it is online:
  the second notification drains again and sends the entry again.\<close>

theorem online_notification_always_drains_witness:
  "isOnline (handleOnline one_pending) \<and>
   drains (handleOnline (handleOnline one_pending)) = drains (handleOnline one_pending) + 1 \<and>
   sends_of 0 (handleOnline (handleOnline one_pending)) =
     sends_of 0 (handleOnline one_pending) + 1"
proof -
  have p: "pendingItems (handleOnline one_pending) = 0 # []" by code_simp
  show ?thesis
    using online_notification_always_drains [of one_pending 0 "[]"]
      online_notification_always_drains [of "handleOnline one_pending" 0 "[]"] p
    by simp
qed

text \<open>
  C4 as stated fails: after one \<open>online\<close> notification the manager is online and has
  drained once; a second \<open>online\<close> notification with no \<open>offline\<close> in between drains
  again, and the queued entry is sent a second time.
\<close>

theorem repeated_online_counterexample:
  "isOnline (run [Online] one_pending) \<and>
   drains (run [Online] one_pending) = 1 \<and>
   drains (run [Online, Online] one_pending) = 2 \<and>
   sends_of 0 (run [Online, Online] one_pending) = 2"
  by code_simp

subsection \<open>The retry timer\<close>

lemma clock_resume [simp]: "clock (resume k out s) = clock s"
proof (cases "k < length (tasks s)")
  case False
  then show ?thesis by (simp add: resume_none)
next
  case True
  then show ?thesis
    by (cases "tasks s ! k"; cases "case tasks s ! k of DrainTask c rest \<Rightarrow> rest | _ \<Rightarrow> []")
       (simp_all add: resume_retry resume_drain_last resume_drain_more)
qed

text \<open>
  A delivery attempt made by a drain: when its request fails and the entry's
  \<open>retries\<close>, once incremented, is still below \<open>maxRetries\<close>, a timer for that entry is
  set with the delay \<open>5000 * retries\<close> milliseconds. The timer is a task of its own: with
  no drain called, it does nothing before its delay has passed, and once the delay has
  passed and the page is online it sends a request for that entry.
\<close>

lemma failed_drain_delivery_schedules_retry:
  assumes "k < length (tasks s)" and "tasks s ! k = DrainTask cur rest"
    and "out \<noteq> Result True"
    and "retries (heap s ! cur) + 1 < maxRetries"
  shows "timers (resume k out s) =
           timers s @ [\<lparr>delay = 5000 * int (retries (heap s ! cur) + 1), setAt = clock s,
                        target = cur\<rparr>] \<and>
         (int d < 5000 * int (retries (heap s ! cur) + 1) \<longrightarrow>
            step (TimerFire (length (timers s))) (step (Tick d) (resume k out s)) =
            step (Tick d) (resume k out s)) \<and>
         (5000 * int (retries (heap s ! cur) + 1) \<le> int d \<and> isOnline s \<longrightarrow>
            sends_of cur (step (TimerFire (length (timers s))) (step (Tick d) (resume k out s))) =
            sends_of cur (resume k out s) + 1)"
proof -
  let ?t = "\<lparr>delay = 5000 * int (retries (heap s ! cur) + 1), setAt = clock s, target = cur\<rparr>"
  let ?s' = "resume k out s"
  have a: "drain_attempt cur out s = catch_failure cur s"
    using assms(3) by (cases out) (auto simp: drain_attempt_def syncItem_settle_def split: bool.splits)
  have b: "timers (catch_failure cur s) = timers s @ [?t]"
    using assms(4) by (simp add: catch_failure_def Let_def retryDelay_def)
  have t: "timers ?s' = timers s @ [?t]"
  proof (cases rest)
    case Nil
    then show ?thesis using assms(1,2) a b by (simp add: resume_drain_last)
  next
    case (Cons c cs)
    then show ?thesis using assms(1,2) a b by (simp add: resume_drain_more)
  qed
  have early: "int d < 5000 * int (retries (heap s ! cur) + 1) \<Longrightarrow>
      step (TimerFire (length (timers s))) (step (Tick d) ?s') = step (Tick d) ?s'"
    by (simp add: timerFire_def t)
  have late: "5000 * int (retries (heap s ! cur) + 1) \<le> int d \<Longrightarrow> isOnline s \<Longrightarrow>
      sends_of cur (step (TimerFire (length (timers s))) (step (Tick d) ?s')) = sends_of cur ?s' + 1"
    by (simp add: timerFire_def t Let_def sends_of_def syncItem_send_def)
  show ?thesis using t early late by blast
qed

text \<open>At the first failure of a queued alert: the timer is set for 5000 milliseconds,
  does not fire after 4999 and sends the alert after 5000.\<close>

lemma failed_drain_delivery_schedules_retry_example:
  "timers (resume 0 NotOk (run [Online] one_pending)) =
     [\<lparr>delay = 5000, setAt = 1000, target = 0\<rparr>] \<and>
   step (TimerFire 0) (step (Tick 4999) (resume 0 NotOk (run [Online] one_pending))) =
     step (Tick 4999) (resume 0 NotOk (run [Online] one_pending)) \<and>
   sends_of 0 (step (TimerFire 0) (step (Tick 5000) (resume 0 NotOk (run [Online] one_pending)))) =
     sends_of 0 (resume 0 NotOk (run [Online] one_pending)) + 1"
proof -
  let ?s = "run [Online] one_pending"
  have h1: "0 < length (tasks ?s)" by code_simp
  have h2: "tasks ?s ! 0 = DrainTask 0 []" by code_simp
  have h3: "NotOk \<noteq> Result True" by simp
  have h4: "retries (heap ?s ! 0) + 1 < maxRetries" by code_simp
  have v: "retries (heap ?s ! 0) = 0" "clock ?s = 1000" "timers ?s = []" "isOnline ?s"
    by code_simp+
  show ?thesis
    using failed_drain_delivery_schedules_retry [OF h1 h2 h3 h4, of 4999]
      failed_drain_delivery_schedules_retry [OF h1 h2 h3 h4, of 5000] v
    by simp
qed

subsection \<open>A property of every item, kept by the manager\<close>

lemma all_items_fields [simp]:
  "all_items P (s\<lparr>tasks := ts\<rparr>) = all_items P s"
  "all_items P (s\<lparr>timers := tm\<rparr>) = all_items P s"
  "all_items P (s\<lparr>fetched := fs\<rparr>) = all_items P s"
  "all_items P (s\<lparr>drains := n\<rparr>) = all_items P s"
  "all_items P (s\<lparr>isOnline := b\<rparr>) = all_items P s"
  "all_items P (s\<lparr>clock := c\<rparr>) = all_items P s"
  by (simp_all add: all_items_def)

lemma all_items_saveSyncQueue:
  "all_items P s \<Longrightarrow> all_items P (saveSyncQueue s)"
  by (auto simp: all_items_def saveSyncQueue_def Let_def)

lemma all_items_syncItem_send [simp]:
  "all_items P (syncItem_send r s) = all_items P s"
  by (simp add: all_items_def)

lemma update_out_of_range: "\<not> r < length xs \<Longrightarrow> xs[r := v] = xs"
  by (simp add: list_update_beyond)

lemma all_items_heap_update:
  assumes "all_items P s" and "P v"
  shows "all_items P (s\<lparr>heap := (heap s)[r := v]\<rparr>)"
proof -
  have "set ((heap s)[r := v]) \<subseteq> insert v (set (heap s))"
    by (rule set_update_subset_insert)
  then show ?thesis using assms by (auto simp: all_items_def)
qed

lemma all_items_alloc:
  assumes "all_items P s" and "P it"
  shows "all_items P (s\<lparr>heap := heap s @ [it], syncQueue := syncQueue s @ [length (heap s)]\<rparr>)"
  using assms by (auto simp: all_items_def)

lemma all_items_reload:
  "all_items P s \<Longrightarrow> all_items P (reload online s)"
  by (auto simp: all_items_def reload_def)

lemma all_items_processSyncQueue:
  "all_items P s \<Longrightarrow> all_items P (processSyncQueue s)"
  by (auto simp: processSyncQueue_def Let_def all_items_saveSyncQueue split: list.splits)

lemma all_items_settle:
  assumes "all_items P s" and "syncItem_settle r out s = Some s'"
    and "\<And>it t. P it \<Longrightarrow> P (it\<lparr>status := ''completed'', completedAt := t\<rparr>)"
  shows "all_items P s'"
proof (cases "r < length (heap s)")
  case True
  then have "P (heap s ! r)" using assms(1) by (simp add: all_items_def)
  then have "P ((heap s ! r)\<lparr>status := ''completed'', completedAt := Some (clock s)\<rparr>)"
    by (rule assms(3))
  then have "all_items P (s\<lparr>heap := (heap s)[r := (heap s ! r)\<lparr>status := ''completed'',
      completedAt := Some (clock s)\<rparr>]\<rparr>)"
    using assms(1) by (simp add: all_items_heap_update)
  then show ?thesis
    using assms(2) by (auto simp: syncItem_settle_def split: outcome.splits bool.splits)
next
  case False
  then have "(heap s)[r := (heap s ! r)\<lparr>status := ''completed'',
      completedAt := Some (clock s)\<rparr>] = heap s"
    by (rule update_out_of_range)
  then show ?thesis
    using assms(1,2) by (auto simp: syncItem_settle_def split: outcome.splits bool.splits)
qed

lemma all_items_retry_attempt:
  assumes "all_items P s"
    and "\<And>it t. P it \<Longrightarrow> P (it\<lparr>status := ''completed'', completedAt := t\<rparr>)"
  shows "all_items P (retry_attempt r out s)"
  using assms all_items_settle [of P s r out]
  by (auto simp: retry_attempt_def split: option.splits)

lemma all_items_timerFire:
  "all_items P s \<Longrightarrow> all_items P (timerFire k s)"
  by (simp add: timerFire_def Let_def)

lemma all_items_addToSyncQueue:
  assumes "all_items P s"
    and "\<And>i ty d e m t. P \<lparr>item_id = i, item_type = ty, item_data = d, endpoint = e,
           item_method = m, timestamp = t, retries = 0, status = ''pending'',
           completedAt = None\<rparr>"
  shows "all_items P (addToSyncQueue ty d e m new_id s)"
  using assms
  by (simp add: addToSyncQueue_def Let_def all_items_processSyncQueue all_items_saveSyncQueue
      all_items_alloc)

subsection \<open>The status of every item\<close>

lemma status_ok_completed:
  "status_ok (it\<lparr>status := ''completed'', completedAt := t\<rparr>)"
  by (simp add: status_ok_def)

lemma status_ok_catch_failure:
  assumes "all_items status_ok s"
  shows "all_items status_ok (catch_failure r s)"
proof (cases "r < length (heap s)")
  case True
  then have "status_ok (heap s ! r)" using assms by (simp add: all_items_def)
  then have "status_ok ((heap s ! r)\<lparr>retries := retries (heap s ! r) + 1\<rparr>)"
    and "status_ok ((heap s ! r)\<lparr>retries := retries (heap s ! r) + 1, status := ''failed''\<rparr>)"
    by (simp_all add: status_ok_def)
  then show ?thesis
    using assms by (simp add: catch_failure_def Let_def all_items_heap_update)
next
  case False
  then show ?thesis
    using assms by (simp add: catch_failure_def Let_def all_items_def update_out_of_range)
qed

lemma status_ok_drain_attempt:
  assumes "all_items status_ok s"
  shows "all_items status_ok (drain_attempt r out s)"
  using assms all_items_settle [of status_ok s r out] status_ok_catch_failure [of s r]
  by (auto simp: drain_attempt_def status_ok_completed split: option.splits)

lemma status_ok_resume:
  assumes "all_items status_ok s"
  shows "all_items status_ok (resume k out s)"
proof (cases "k < length (tasks s)")
  case False
  then show ?thesis using assms by (simp add: resume_none)
next
  case k: True
  show ?thesis
  proof (cases "tasks s ! k")
    case (RetryTask cur)
    then show ?thesis
      using k assms by (simp add: resume_retry all_items_retry_attempt status_ok_completed)
  next
    case (DrainTask cur rest)
    then show ?thesis
      using k assms
      by (cases rest)
         (simp_all add: resume_drain_last resume_drain_more status_ok_drain_attempt
            all_items_saveSyncQueue)
  qed
qed

lemma status_ok_step:
  assumes "all_items status_ok s"
  shows "all_items status_ok (step e s)"
proof (cases e)
  case (Add ty d ep m new_id)
  then show ?thesis
    using assms by (simp add: all_items_addToSyncQueue status_ok_def)
qed (use assms in \<open>simp_all add: handleOnline_def handleOffline_def periodicSync_def
      periodicCleanup_def forcSync_def all_items_processSyncQueue all_items_saveSyncQueue
      status_ok_resume all_items_timerFire all_items_reload\<close>)

lemma status_ok_reachable: "reachable s \<Longrightarrow> all_items status_ok s"
proof (induction rule: reachable.induct)
  case (reachable_initial online now)
  show ?case by (simp add: all_items_def initial_def)
next
  case (reachable_step s e)
  then show ?case by (simp add: status_ok_step)
qed

lemma three_way_count:
  assumes "\<forall>x\<in>set xs. f x = a \<or> f x = b \<or> f x = c" and "a \<noteq> b" and "a \<noteq> c" and "b \<noteq> c"
  shows "length xs = length (filter (\<lambda>x. f x = a) xs) + length (filter (\<lambda>x. f x = b) xs) +
      length (filter (\<lambda>x. f x = c) xs)"
  using assms by (induction xs) auto

lemma reachable_run: "reachable s \<Longrightarrow> reachable (run evs s)"
  by (induction evs arbitrary: s) (simp_all add: reachable_step)

text \<open>
  C10. In every state the manager reaches from a first page load, by any events, the
  status of every entry of the queue is \<open>pending\<close>, \<open>completed\<close> or \<open>failed\<close>, and the
  counts of \<open>getSyncStats\<close> add up: \<open>total = pending + completed + failed\<close>.
  \<open>getSyncStats\<close> reads the state and returns the counts; it is a function of the
  state and writes nothing.
\<close>

theorem sync_stats_partition:
  assumes "reachable s"
  shows "(\<forall>r\<in>set (syncQueue s).
            status (heap s ! r) = ''pending'' \<or> status (heap s ! r) = ''completed'' \<or>
            status (heap s ! r) = ''failed'') \<and>
         total (getSyncStats s) =
           pending (getSyncStats s) + completed (getSyncStats s) + failed (getSyncStats s)"
proof -
  have a: "all_items status_ok s" using assms by (rule status_ok_reachable)
  have b: "\<forall>r\<in>set (syncQueue s).
            status (heap s ! r) = ''pending'' \<or> status (heap s ! r) = ''completed'' \<or>
            status (heap s ! r) = ''failed''"
  proof
    fix r assume r: "r \<in> set (syncQueue s)"
    then have "r < length (heap s)" using a by (simp add: all_items_def)
    then have "status_ok (heap s ! r)" using a by (simp add: all_items_def)
    then show "status (heap s ! r) = ''pending'' \<or> status (heap s ! r) = ''completed'' \<or>
            status (heap s ! r) = ''failed''"
      by (simp add: status_ok_def)
  qed
  have "length (syncQueue s) =
      length (filter (\<lambda>r. status (heap s ! r) = ''pending'') (syncQueue s)) +
      length (filter (\<lambda>r. status (heap s ! r) = ''completed'') (syncQueue s)) +
      length (filter (\<lambda>r. status (heap s ! r) = ''failed'') (syncQueue s))"
    using b by (intro three_way_count) simp_all
  then show ?thesis using b by (simp add: getSyncStats_def)
qed

text \<open>The theorem at the five queued entries after the first has been delivered and
  the second has failed once.\<close>

theorem sync_stats_partition_witness:
  "reachable (run [Online, Response 0 (Result True), Response 0 NotOk] five_pending) \<and>
   pending (getSyncStats (run [Online, Response 0 (Result True), Response 0 NotOk] five_pending)) = 4 \<and>
   completed (getSyncStats (run [Online, Response 0 (Result True), Response 0 NotOk] five_pending)) = 1 \<and>
   failed (getSyncStats (run [Online, Response 0 (Result True), Response 0 NotOk] five_pending)) = 0 \<and>
   total (getSyncStats (run [Online, Response 0 (Result True), Response 0 NotOk] five_pending)) = 5"
proof -
  let ?s = "run [Online, Response 0 (Result True), Response 0 NotOk] five_pending"
  have r: "reachable ?s"
    unfolding five_pending_def by (intro reachable_run reachable_initial)
  have c: "pending (getSyncStats ?s) = 4" "completed (getSyncStats ?s) = 1"
    "failed (getSyncStats ?s) = 0"
    by code_simp+
  show ?thesis using sync_stats_partition [OF r] r c by simp
qed

subsection \<open>One drain at a time\<close>

lemmas manager_defs =
  initial_def addToSyncQueue_def saveSyncQueue_def keep_item_def processSyncQueue_def
  pendingItems_def handleOnline_def handleOffline_def periodicSync_def periodicCleanup_def
  forcSync_def resume_def drain_attempt_def retry_attempt_def catch_failure_def
  syncItem_send_def syncItem_settle_def timerFire_def reload_def remove_nth_def
  maxRetries_def retryDelay_def sends_of_def Let_def

lemma task_ok_heap_completed:
  assumes "task_ok h t"
  shows "task_ok (h[r := (h ! r)\<lparr>status := ''completed'', completedAt := x\<rparr>]) t"
proof (cases t)
  case (RetryTask c)
  then show ?thesis by simp
next
  case (DrainTask cur rest)
  have "\<And>c. c < length h \<Longrightarrow> retries (h ! c) < maxRetries \<Longrightarrow> status (h ! c) \<noteq> ''failed'' \<Longrightarrow>
      retries (h[r := (h ! r)\<lparr>status := ''completed'', completedAt := x\<rparr>] ! c) < maxRetries \<and>
      status (h[r := (h ! r)\<lparr>status := ''completed'', completedAt := x\<rparr>] ! c) \<noteq> ''failed''"
    subgoal for c by (cases "r = c") simp_all
    done
  then show ?thesis using assms DrainTask by auto
qed

lemma task_ok_heap_append:
  "task_ok h t \<Longrightarrow> task_ok (h @ xs) t"
  by (cases t) (auto simp: nth_append)

lemma task_ok_heap_other:
  assumes "task_ok h (DrainTask cur (c # cs))"
  shows "task_ok (h[cur := v]) (DrainTask c cs)"
proof -
  have "\<And>d. d \<in> set (c # cs) \<Longrightarrow> cur \<noteq> d" using assms by auto
  then have "\<And>d. d \<in> set (c # cs) \<Longrightarrow> h[cur := v] ! d = h ! d"
    by (rule nth_list_update_neq)
  then show ?thesis using assms by auto
qed

text \<open>With at most one drain among the tasks, the drain at \<open>k\<close> is the only one.\<close>

lemma only_drain:
  assumes "length (filter is_drain ts) \<le> 1" and "k < length ts" and "is_drain (ts ! k)"
  shows "filter is_drain (take k ts) = []" and "filter is_drain (drop (Suc k) ts) = []"
proof -
  have "ts = take k ts @ ts ! k # drop (Suc k) ts"
    using assms(2) by (rule id_take_nth_drop)
  then have "filter is_drain ts =
      filter is_drain (take k ts) @ ts ! k # filter is_drain (drop (Suc k) ts)"
    using assms(3) by (metis filter.simps(2) filter_append)
  then have "length (filter is_drain (take k ts)) + 1 + length (filter is_drain (drop (Suc k) ts)) \<le> 1"
    using assms(1) by simp
  then show "filter is_drain (take k ts) = []" and "filter is_drain (drop (Suc k) ts) = []"
    by simp_all
qed

lemma only_drain_removed:
  assumes "length (filter is_drain ts) \<le> 1" and "k < length ts" and "is_drain (ts ! k)"
  shows "filter is_drain (remove_nth k ts) = []"
  using only_drain [OF assms] by (simp add: remove_nth_def)

lemma only_drain_replaced:
  assumes "length (filter is_drain ts) \<le> 1" and "k < length ts" and "is_drain (ts ! k)"
    and "t \<in> set (ts[k := y])" and "is_drain t"
  shows "t = y"
proof -
  have "ts[k := y] = take k ts @ y # drop (Suc k) ts"
    using assms(2) by (rule upd_conv_take_nth_drop)
  then have "t \<in> set (take k ts) \<or> t = y \<or> t \<in> set (drop (Suc k) ts)"
    using assms(4) by auto
  moreover have "t \<notin> set (take k ts)" "t \<notin> set (drop (Suc k) ts)"
    using only_drain [OF assms(1-3)] assms(5) by (auto simp: filter_empty_conv)
  ultimately show ?thesis by blast
qed

lemma filter_drain_replaced:
  assumes "length (filter is_drain ts) \<le> 1" and "k < length ts" and "is_drain (ts ! k)"
  shows "length (filter is_drain (ts[k := y])) \<le> 1"
proof -
  have "ts[k := y] = take k ts @ y # drop (Suc k) ts"
    using assms(2) by (rule upd_conv_take_nth_drop)
  then show ?thesis using only_drain [OF assms] by simp
qed

lemma filter_drain_removed:
  assumes "k < length ts"
  shows "length (filter is_drain (remove_nth k ts)) \<le> length (filter is_drain ts)"
proof -
  have "ts = take k ts @ ts ! k # drop (Suc k) ts"
    using assms by (rule id_take_nth_drop)
  then have "length (filter is_drain ts) =
      length (filter is_drain (take k ts @ ts ! k # drop (Suc k) ts))" by simp
  then show ?thesis by (simp add: remove_nth_def)
qed

lemma set_remove_nth: "set (remove_nth k ts) \<subseteq> set ts"
  by (auto simp: remove_nth_def dest: in_set_takeD in_set_dropD)

lemma not_drain_task_ok: "\<not> is_drain t \<Longrightarrow> task_ok h t"
  by (cases t) simp_all

lemma task_ok_tail: "task_ok h (DrainTask cur (c # cs)) \<Longrightarrow> task_ok h (DrainTask c cs)"
  by simp

lemma drain_ok_fields [simp]:
  "drain_ok (s\<lparr>timers := tm\<rparr>) = drain_ok s"
  "drain_ok (s\<lparr>fetched := fs\<rparr>) = drain_ok s"
  "drain_ok (s\<lparr>drains := n\<rparr>) = drain_ok s"
  "drain_ok (s\<lparr>isOnline := b\<rparr>) = drain_ok s"
  "drain_ok (s\<lparr>clock := c\<rparr>) = drain_ok s"
  "drain_ok (saveSyncQueue s) = drain_ok s"
  "drain_ok (syncItem_send r s) = drain_ok s"
  by (simp_all add: drain_ok_def)

lemma one_drain_fields [simp]:
  "one_drain (s\<lparr>timers := tm\<rparr>) = one_drain s"
  "one_drain (s\<lparr>fetched := fs\<rparr>) = one_drain s"
  "one_drain (s\<lparr>drains := n\<rparr>) = one_drain s"
  "one_drain (s\<lparr>isOnline := b\<rparr>) = one_drain s"
  "one_drain (s\<lparr>clock := c\<rparr>) = one_drain s"
  "one_drain (syncItem_send r s) = one_drain s"
  by (simp_all add: one_drain_def)

lemma no_drain_fields [simp]:
  "no_drain (s\<lparr>isOnline := b\<rparr>) = no_drain s"
  "no_drain (s\<lparr>drains := n\<rparr>) = no_drain s"
  "no_drain (saveSyncQueue s) = no_drain s"
  by (simp_all add: no_drain_def)

lemma one_drain_saveSyncQueue: "one_drain s \<Longrightarrow> one_drain (saveSyncQueue s)"
proof -
  assume a: "one_drain s"
  have "distinct (syncQueue (saveSyncQueue s))"
    using a by (simp add: one_drain_def saveSyncQueue_def Let_def)
  then show ?thesis using a by (simp add: one_drain_def all_items_saveSyncQueue)
qed

lemma pending_task_ok:
  assumes "one_drain s" and "pendingItems s = r # rs"
  shows "task_ok (heap s) (DrainTask r rs)"
proof -
  have d: "distinct (r # rs)"
    using assms by (metis distinct_filter one_drain_def pendingItems_def)
  have "\<And>c. c \<in> set (r # rs) \<Longrightarrow>
      c < length (heap s) \<and> retries (heap s ! c) < maxRetries \<and> status (heap s ! c) \<noteq> ''failed''"
  proof -
    fix c assume "c \<in> set (r # rs)"
    then have "c \<in> set (pendingItems s)" using assms(2) by simp
    then have q: "c \<in> set (syncQueue s)" and p: "status (heap s ! c) = ''pending''"
      by (simp_all add: pendingItems_def)
    have l: "c < length (heap s)" using assms(1) q by (simp add: one_drain_def all_items_def)
    then have "item_bounded (heap s ! c)" using assms(1) by (simp add: one_drain_def all_items_def)
    then show "c < length (heap s) \<and> retries (heap s ! c) < maxRetries \<and>
        status (heap s ! c) \<noteq> ''failed''"
      using l p by (simp add: item_bounded_def)
  qed
  then show ?thesis using d by simp
qed

lemma heap_processSyncQueue [simp]: "heap (processSyncQueue s) = heap s"
  by (simp add: processSyncQueue_def Let_def split: list.splits)

lemma one_drain_processSyncQueue:
  assumes "one_drain s" and "no_drain s"
  shows "one_drain (processSyncQueue s)"
proof -
  let ?s = "s\<lparr>drains := drains s + 1\<rparr>"
  have i: "one_drain ?s" using assms(1) by simp
  show ?thesis
  proof (cases "\<not> isOnline s \<or> length (syncQueue s) = 0")
    case True
    then show ?thesis using i by (auto simp: processSyncQueue_def Let_def)
  next
    case False
    show ?thesis
    proof (cases "pendingItems ?s")
      case Nil
      then show ?thesis
        using False i by (simp add: processSyncQueue_def Let_def one_drain_saveSyncQueue)
    next
      case (Cons r rs)
      have t: "task_ok (heap s) (DrainTask r rs)"
        using pending_task_ok [OF i Cons] by simp
      have p: "processSyncQueue s = (syncItem_send r ?s)\<lparr>tasks := tasks s @ [DrainTask r rs]\<rparr>"
        using False Cons by (simp add: processSyncQueue_def Let_def)
      have "drain_ok (processSyncQueue s)"
        using assms t by (simp add: p drain_ok_def one_drain_def no_drain_def)
      then show ?thesis using assms(1) by (simp add: p one_drain_def)
    qed
  qed
qed

lemma item_bounded_completed:
  "item_bounded it \<Longrightarrow> item_bounded (it\<lparr>status := ''completed'', completedAt := t\<rparr>)"
  by (simp add: item_bounded_def)

lemma heap_settle:
  "syncItem_settle r out s = Some s' \<Longrightarrow>
   heap s' = (heap s)[r := (heap s ! r)\<lparr>status := ''completed'', completedAt := Some (clock s)\<rparr>] \<and>
   tasks s' = tasks s \<and> syncQueue s' = syncQueue s"
  by (auto simp: syncItem_settle_def split: outcome.splits bool.splits)

lemma settle_None: "out \<noteq> Result True \<Longrightarrow> syncItem_settle r out s = None"
  by (cases out) (auto simp: syncItem_settle_def)

lemma one_drain_retry_attempt:
  assumes "one_drain s"
  shows "one_drain (retry_attempt r out s)"
proof (cases "syncItem_settle r out s")
  case None
  then show ?thesis using assms by (simp add: retry_attempt_def)
next
  case (Some s')
  have h: "heap s' = (heap s)[r := (heap s ! r)\<lparr>status := ''completed'',
      completedAt := Some (clock s)\<rparr>]" "tasks s' = tasks s" "syncQueue s' = syncQueue s"
    using heap_settle [OF Some] by simp_all
  have a: "all_items item_bounded s'"
    using assms Some by (auto simp: one_drain_def intro: all_items_settle item_bounded_completed)
  have "drain_ok s'"
    using assms by (simp add: one_drain_def drain_ok_def h task_ok_heap_completed)
  then show ?thesis using a assms Some by (simp add: one_drain_def retry_attempt_def h)
qed

text \<open>The drain at \<open>k\<close> after its request has settled: every item is bounded, and the
  rest of the snapshot is as it was.\<close>

lemma drain_attempt_keeps:
  assumes "one_drain s" and "k < length (tasks s)" and "tasks s ! k = DrainTask cur rest"
  shows "all_items item_bounded (drain_attempt cur out s)"
    and "rest = c # cs \<Longrightarrow> task_ok (heap (drain_attempt cur out s)) (DrainTask c cs)"
proof -
  have "\<forall>t\<in>set (tasks s). task_ok (heap s) t"
    using assms(1) by (simp add: one_drain_def drain_ok_def)
  then have "task_ok (heap s) (tasks s ! k)" using assms(2) nth_mem by blast
  then have ok: "task_ok (heap s) (DrainTask cur rest)" by (simp only: assms(3))
  then have cur: "cur < length (heap s)" "retries (heap s ! cur) < maxRetries"
    "status (heap s ! cur) \<noteq> ''failed''"
    by simp_all
  have b: "item_bounded (heap s ! cur)"
    using assms(1) cur(1) by (simp add: one_drain_def all_items_def)
  have ai: "all_items item_bounded s" using assms(1) by (simp add: one_drain_def)
  show "all_items item_bounded (drain_attempt cur out s)"
  proof (cases "syncItem_settle cur out s")
    case (Some s')
    then show ?thesis
      using ai by (auto simp: drain_attempt_def intro: all_items_settle item_bounded_completed)
  next
    case None
    have "item_bounded ((heap s ! cur)\<lparr>retries := retries (heap s ! cur) + 1, status := ''failed''\<rparr>)"
      using cur by (simp add: item_bounded_def)
    moreover have "\<not> maxRetries \<le> retries (heap s ! cur) + 1 \<Longrightarrow>
        item_bounded ((heap s ! cur)\<lparr>retries := retries (heap s ! cur) + 1\<rparr>)"
      using b by (simp add: item_bounded_def)
    ultimately show ?thesis
      using None ai by (simp add: drain_attempt_def catch_failure_def Let_def all_items_heap_update)
  qed
  show "rest = c # cs \<Longrightarrow> task_ok (heap (drain_attempt cur out s)) (DrainTask c cs)"
  proof -
    assume r: "rest = c # cs"
    show ?thesis
    proof (cases "syncItem_settle cur out s")
      case (Some s')
      have "task_ok (heap s') (DrainTask cur (c # cs))"
        using ok r heap_settle [OF Some] task_ok_heap_completed by metis
      then show ?thesis using Some by (simp add: drain_attempt_def)
    next
      case None
      have "\<And>v. task_ok ((heap s)[cur := v]) (DrainTask c cs)"
        using ok r task_ok_heap_other by blast
      then show ?thesis using None by (simp add: drain_attempt_def catch_failure_def Let_def)
    qed
  qed
qed

lemma syncItem_send_tasks:
  "(syncItem_send c s)\<lparr>tasks := ts\<rparr> = syncItem_send c (s\<lparr>tasks := ts\<rparr>)"
  by (simp add: syncItem_send_def Let_def)

lemma one_drain_resume:
  assumes "one_drain s"
  shows "one_drain (resume k out s)"
proof (cases "k < length (tasks s)")
  case False
  then show ?thesis using assms by (simp add: resume_none)
next
  case k: True
  have one: "length (filter is_drain (tasks s)) \<le> 1"
    using assms by (simp add: one_drain_def drain_ok_def)
  show ?thesis
  proof (cases "tasks s ! k")
    case (RetryTask cur)
    have i: "one_drain (retry_attempt cur out s)" using assms by (rule one_drain_retry_attempt)
    then have "drain_ok ((retry_attempt cur out s)\<lparr>tasks := remove_nth k (tasks s)\<rparr>)"
      using filter_drain_removed [OF k] set_remove_nth [of k "tasks s"]
      by (auto simp: one_drain_def drain_ok_def)
    then show ?thesis using i k RetryTask by (simp add: resume_retry one_drain_def)
  next
    case (DrainTask cur rest)
    let ?s1 = "drain_attempt cur out s"
    have d: "is_drain (tasks s ! k)" using DrainTask by simp
    have a: "all_items item_bounded ?s1"
      using drain_attempt_keeps(1) [OF assms k DrainTask] .
    have q: "distinct (syncQueue ?s1)" using assms by (simp add: one_drain_def)
    show ?thesis
    proof (cases rest)
      case Nil
      have "filter is_drain (remove_nth k (tasks s)) = []"
        using only_drain_removed [OF one k d] .
      then have "drain_ok (?s1\<lparr>tasks := remove_nth k (tasks s)\<rparr>)"
        by (auto simp: drain_ok_def filter_empty_conv not_drain_task_ok)
      then have "one_drain (?s1\<lparr>tasks := remove_nth k (tasks s)\<rparr>)"
        using a q by (simp add: one_drain_def)
      then show ?thesis using k DrainTask Nil by (simp add: resume_drain_last one_drain_saveSyncQueue)
    next
      case (Cons c cs)
      have t: "task_ok (heap ?s1) (DrainTask c cs)"
        using drain_attempt_keeps(2) [OF assms k DrainTask Cons] .
      have "\<And>t. t \<in> set ((tasks s)[k := DrainTask c cs]) \<Longrightarrow> task_ok (heap ?s1) t"
        using only_drain_replaced [OF one k d] t not_drain_task_ok by metis
      then have "drain_ok (?s1\<lparr>tasks := (tasks s)[k := DrainTask c cs]\<rparr>)"
        using filter_drain_replaced [OF one k d] by (simp add: drain_ok_def)
      then have "one_drain (?s1\<lparr>tasks := (tasks s)[k := DrainTask c cs]\<rparr>)"
        using a q by (simp add: one_drain_def)
      then show ?thesis
        using k DrainTask Cons by (simp add: resume_drain_more syncItem_send_tasks)
    qed
  qed
qed

lemma one_drain_timerFire: "one_drain s \<Longrightarrow> one_drain (timerFire k s)"
  by (simp add: timerFire_def Let_def one_drain_def drain_ok_def)

lemma one_drain_addToSyncQueue:
  assumes "one_drain s" and "no_drain s"
  shows "one_drain (addToSyncQueue ty d ep m new_id s)"
proof -
  let ?it = "\<lparr>item_id = new_id, item_type = ty, item_data = d, endpoint = ep,
      item_method = m, timestamp = clock s, retries = 0, status = ''pending'',
      completedAt = None\<rparr>"
  let ?s1 = "s\<lparr>heap := heap s @ [?it], syncQueue := syncQueue s @ [length (heap s)]\<rparr>"
  have b: "item_bounded ?it" by (simp add: item_bounded_def maxRetries_def)
  have a: "all_items item_bounded ?s1"
    using assms(1) b by (simp add: one_drain_def all_items_alloc)
  have "\<forall>r\<in>set (syncQueue s). r < length (heap s)"
    using assms(1) by (simp add: one_drain_def all_items_def)
  then have q: "distinct (syncQueue ?s1)" using assms(1) by (auto simp: one_drain_def)
  have "drain_ok ?s1"
    using assms(1) by (simp add: one_drain_def drain_ok_def task_ok_heap_append)
  then have "one_drain ?s1"
    using a q by (simp add: one_drain_def)
  then have i: "one_drain (saveSyncQueue ?s1)"
    by (rule one_drain_saveSyncQueue)
  have n: "no_drain (saveSyncQueue ?s1)" using assms(2) by (simp add: no_drain_def)
  show ?thesis
    using i n by (simp add: addToSyncQueue_def Let_def one_drain_processSyncQueue)
qed

lemma one_drain_reload: "one_drain s \<Longrightarrow> one_drain (reload online s)"
  by (simp add: one_drain_def all_items_reload) (simp add: reload_def drain_ok_def)

lemma one_drain_step:
  assumes "one_drain s" and "starts_drain e \<longrightarrow> no_drain s"
  shows "one_drain (step e s)"
proof (cases e)
  case Online
  then show ?thesis using assms by (simp add: handleOnline_def one_drain_processSyncQueue)
next
  case (Add ty d ep m new_id)
  then show ?thesis using assms by (simp add: one_drain_addToSyncQueue)
next
  case PeriodicSync
  then show ?thesis using assms by (simp add: periodicSync_def one_drain_processSyncQueue)
next
  case ForceSync
  then show ?thesis using assms by (simp add: forcSync_def one_drain_processSyncQueue)
qed (use assms in \<open>simp_all add: handleOffline_def periodicCleanup_def one_drain_saveSyncQueue
      one_drain_resume one_drain_timerFire one_drain_reload\<close>)

lemma one_drain_run: "one_drain s \<Longrightarrow> sequential evs s \<Longrightarrow> one_drain (run evs s)"
  by (induction evs arbitrary: s) (simp_all add: one_drain_step)

lemma one_drain_initial: "one_drain (initial online now)"
  by (simp add: one_drain_def all_items_def drain_ok_def initial_def)

lemma heap_resume_drain:
  assumes "k < length (tasks s)" and "tasks s ! k = DrainTask cur rest"
  shows "heap (resume k out s) = heap (drain_attempt cur out s)"
  using assms by (cases rest) (simp_all add: resume_drain_last resume_drain_more)

lemma sends_of_processSyncQueue_not_pending:
  assumes "status (heap s ! r) \<noteq> ''pending''"
  shows "sends_of r (processSyncQueue s) = sends_of r s"
proof (cases "pendingItems (s\<lparr>drains := drains s + 1\<rparr>)")
  case Nil
  then show ?thesis by (simp add: processSyncQueue_def Let_def)
next
  case (Cons c cs)
  then have "c \<in> set (pendingItems (s\<lparr>drains := drains s + 1\<rparr>))" by simp
  then have "status (heap s ! c) = ''pending''" by (simp add: pendingItems_def)
  then have "c \<noteq> r" using assms by auto
  then show ?thesis using Cons by (simp add: processSyncQueue_def Let_def)
qed

lemma sends_of_resume_failed:
  assumes "one_drain s" and "status (heap s ! r) = ''failed''"
  shows "sends_of r (resume k out s) = sends_of r s"
proof (cases "k < length (tasks s)")
  case False
  then show ?thesis by (simp add: resume_none)
next
  case k: True
  show ?thesis
  proof (cases "tasks s ! k")
    case (RetryTask cur)
    then show ?thesis using k by (simp add: resume_retry)
  next
    case (DrainTask cur rest)
    show ?thesis
    proof (cases rest)
      case Nil
      then show ?thesis using k DrainTask by (simp add: resume_drain_last)
    next
      case (Cons c cs)
      have "\<forall>t\<in>set (tasks s). task_ok (heap s) t"
        using assms(1) by (simp add: one_drain_def drain_ok_def)
      then have "task_ok (heap s) (tasks s ! k)" using k nth_mem by blast
      then have "status (heap s ! c) \<noteq> ''failed''" using DrainTask Cons by simp
      then have "c \<noteq> r" using assms(2) by auto
      then show ?thesis using k DrainTask Cons by (simp add: resume_drain_more)
    qed
  qed
qed

lemma failed_drain_attempt:
  assumes "one_drain s" and "k < length (tasks s)" and "tasks s ! k = DrainTask cur rest"
    and "out \<noteq> Result True"
  shows "retries (heap (resume k out s) ! cur) = retries (heap s ! cur) + 1"
    and "(status (heap (resume k out s) ! cur) = ''failed'') =
         (retries (heap s ! cur) + 1 = maxRetries)"
proof -
  have "\<forall>t\<in>set (tasks s). task_ok (heap s) t"
    using assms(1) by (simp add: one_drain_def drain_ok_def)
  then have "task_ok (heap s) (tasks s ! k)" using assms(2) nth_mem by blast
  then have cur: "cur < length (heap s)" "retries (heap s ! cur) < maxRetries"
    "status (heap s ! cur) \<noteq> ''failed''"
    using assms(3) by simp_all
  have h: "heap (resume k out s) = heap (catch_failure cur s)"
    using heap_resume_drain [OF assms(2,3)] settle_None [OF assms(4)]
    by (simp add: drain_attempt_def)
  show "retries (heap (resume k out s) ! cur) = retries (heap s ! cur) + 1"
    using cur(1) by (simp add: h catch_failure_def Let_def)
  show "(status (heap (resume k out s) ! cur) = ''failed'') =
         (retries (heap s ! cur) + 1 = maxRetries)"
    using cur by (auto simp: h catch_failure_def Let_def)
qed

lemma sends_of_isOnline [simp]: "sends_of r (s\<lparr>isOnline := b\<rparr>) = sends_of r s"
  by (simp add: sends_of_def)

lemma sends_of_addToSyncQueue_not_pending:
  assumes "r < length (heap s)" and "status (heap s ! r) \<noteq> ''pending''"
  shows "sends_of r (addToSyncQueue ty d ep m new_id s) = sends_of r s"
proof -
  let ?it = "\<lparr>item_id = new_id, item_type = ty, item_data = d, endpoint = ep,
      item_method = m, timestamp = clock s, retries = 0, status = ''pending'',
      completedAt = None\<rparr>"
  let ?s1 = "saveSyncQueue (s\<lparr>heap := heap s @ [?it], syncQueue := syncQueue s @ [length (heap s)]\<rparr>)"
  have h: "status (heap ?s1 ! r) \<noteq> ''pending''"
    using assms by (simp add: nth_append)
  have f: "sends_of r ?s1 = sends_of r s" by (simp add: sends_of_def)
  show ?thesis
    using sends_of_processSyncQueue_not_pending [OF h] f
    by (simp add: addToSyncQueue_def Let_def)
qed

lemma sends_of_step_failed:
  assumes "one_drain s" and "r < length (heap s)" and "status (heap s ! r) = ''failed''"
    and "\<not> is_timer e"
  shows "sends_of r (step e s) = sends_of r s"
proof -
  have np: "status (heap s ! r) \<noteq> ''pending''" using assms(3) by simp
  show ?thesis
  proof (cases e)
    case Online
    then show ?thesis
      using sends_of_processSyncQueue_not_pending [of "s\<lparr>isOnline := True\<rparr>" r] np
      by (simp add: handleOnline_def)
  next
    case (Add ty d ep m new_id)
    then show ?thesis
      using assms(2) np by (simp add: sends_of_addToSyncQueue_not_pending)
  next
    case PeriodicSync
    then show ?thesis
      using np by (simp add: periodicSync_def sends_of_processSyncQueue_not_pending)
  next
    case ForceSync
    then show ?thesis
      using np by (simp add: forcSync_def sends_of_processSyncQueue_not_pending)
  next
    case (Response k out)
    then show ?thesis using assms(1,3) by (simp add: sends_of_resume_failed)
  next
    case (TimerFire k)
    then show ?thesis using assms(4) by simp
  qed (simp_all add: handleOffline_def periodicCleanup_def reload_def sends_of_def)
qed

text \<open>
  C2, as amended. In every execution from a first page load in which a drain is called
  only while no other drain is in flight: \<open>retries\<close> never exceeds \<open>maxRetries\<close>, which
  is 3, and an entry that has reached it is no longer pending; a failed request of the
  drain raises the entry's \<open>retries\<close> by one and the entry is \<open>failed\<close> afterwards
  exactly when \<open>retries\<close> has reached \<open>maxRetries\<close>; and no event other than a retry
  timer sends a request for a failed entry: no call of a drain, and no step of the
  drain in flight. The requests of the retry timers are not counted by \<open>retries\<close> and
  this statement says nothing about them.
\<close>

theorem drains_one_at_a_time:
  assumes "sequential evs (initial online now)" and "s = run evs (initial online now)"
  shows "maxRetries = 3 \<and>
    (\<forall>it\<in>set (heap s).
       retries it \<le> maxRetries \<and> (status it = ''pending'' \<longrightarrow> retries it < maxRetries)) \<and>
    (\<forall>k cur rest out.
       k < length (tasks s) \<and> tasks s ! k = DrainTask cur rest \<and> out \<noteq> Result True \<longrightarrow>
       retries (heap (resume k out s) ! cur) = retries (heap s ! cur) + 1 \<and>
       (status (heap (resume k out s) ! cur) = ''failed'') =
         (retries (heap s ! cur) + 1 = maxRetries)) \<and>
    (\<forall>r e. r < length (heap s) \<and> status (heap s ! r) = ''failed'' \<and> \<not> is_timer e \<longrightarrow>
       sends_of r (step e s) = sends_of r s)"
proof -
  have i: "one_drain s"
    using assms one_drain_run [OF one_drain_initial] by simp
  have a: "\<forall>it\<in>set (heap s).
       retries it \<le> maxRetries \<and> (status it = ''pending'' \<longrightarrow> retries it < maxRetries)"
    using i by (simp add: one_drain_def all_items_def item_bounded_def)
  have b: "\<forall>k cur rest out.
       k < length (tasks s) \<and> tasks s ! k = DrainTask cur rest \<and> out \<noteq> Result True \<longrightarrow>
       retries (heap (resume k out s) ! cur) = retries (heap s ! cur) + 1 \<and>
       (status (heap (resume k out s) ! cur) = ''failed'') =
         (retries (heap s ! cur) + 1 = maxRetries)"
    using failed_drain_attempt [OF i] by blast
  have c: "\<forall>r e. r < length (heap s) \<and> status (heap s ! r) = ''failed'' \<and> \<not> is_timer e \<longrightarrow>
       sends_of r (step e s) = sends_of r s"
    using sends_of_step_failed [OF i] by blast
  show ?thesis using a b c by (simp add: maxRetries_def)
qed

text \<open>The theorem at an alert whose requests all fail: after two failed drains (and two
  failed retries by timer) the third drain is in flight with \<open>retries = 2\<close>; when its
  request fails, \<open>retries\<close> is 3 and the entry is failed, and the manual sync that
  follows sends nothing for it.\<close>

theorem drains_one_at_a_time_witness:
  "sequential three_failed_drains (initial True 1000) \<and>
   retries (heap (run three_failed_drains (initial True 1000)) ! 0) = 2 \<and>
   retries (heap (resume 0 Rejected (run three_failed_drains (initial True 1000))) ! 0) = 3 \<and>
   status (heap (resume 0 Rejected (run three_failed_drains (initial True 1000))) ! 0) = ''failed'' \<and>
   sequential three_drains_failed (initial True 1000) \<and>
   status (heap (run three_drains_failed (initial True 1000)) ! 0) = ''failed'' \<and>
   sends_of 0 (step ForceSync (run three_drains_failed (initial True 1000))) =
     sends_of 0 (run three_drains_failed (initial True 1000))"
proof -
  let ?s = "run three_failed_drains (initial True 1000)"
  let ?s' = "run three_drains_failed (initial True 1000)"
  have h: "sequential three_failed_drains (initial True 1000)"
    by (simp add: three_failed_drains_def no_drain_def manager_defs)
  have t: "0 < length (tasks ?s)" "tasks ?s ! 0 = DrainTask 0 []"
    by (simp_all add: three_failed_drains_def manager_defs)
  have r: "retries (heap ?s ! 0) = 2"
    by (simp add: three_failed_drains_def manager_defs)
  have o: "Rejected \<noteq> Result True" by simp
  have "\<forall>k cur rest out.
       k < length (tasks ?s) \<and> tasks ?s ! k = DrainTask cur rest \<and> out \<noteq> Result True \<longrightarrow>
       retries (heap (resume k out ?s) ! cur) = retries (heap ?s ! cur) + 1 \<and>
       (status (heap (resume k out ?s) ! cur) = ''failed'') =
         (retries (heap ?s ! cur) + 1 = maxRetries)"
    using drains_one_at_a_time [OF h refl] by blast
  then have 1: "retries (heap (resume 0 Rejected ?s) ! 0) = retries (heap ?s ! 0) + 1 \<and>
       (status (heap (resume 0 Rejected ?s) ! 0) = ''failed'') =
         (retries (heap ?s ! 0) + 1 = maxRetries)"
    using t o by blast
  have h': "sequential three_drains_failed (initial True 1000)"
    by (simp add: three_drains_failed_def three_failed_drains_def no_drain_def manager_defs)
  have f: "0 < length (heap ?s')" "status (heap ?s' ! 0) = ''failed''"
    by (simp_all add: three_drains_failed_def three_failed_drains_def manager_defs)
  have n: "\<not> is_timer ForceSync" by simp
  have "\<forall>r e. r < length (heap ?s') \<and> status (heap ?s' ! r) = ''failed'' \<and> \<not> is_timer e \<longrightarrow>
       sends_of r (step e ?s') = sends_of r ?s'"
    using drains_one_at_a_time [OF h' refl] by blast
  then have 2: "sends_of 0 (step ForceSync ?s') = sends_of 0 ?s'"
    using f n by blast
  show ?thesis using h r 1 h' f 2 by (simp add: maxRetries_def)
qed

text \<open>
  C2 as stated fails: four drains started before the first request has failed all hold
  the entry; the four failures raise its \<open>retries\<close> to 4, above \<open>maxRetries\<close>.
\<close>

theorem interleaved_drains_exceed_maxRetries_counterexample:
  "retries (heap (run four_drains_at_once (initial True 1000)) ! 0) = 4 \<and> maxRetries = 3"
  by (simp add: four_drains_at_once_def manager_defs)

subsection \<open>A retry timer that fires late\<close>

text \<open>
  C3 asks that a retry timer firing after its entry is completed or failed does
  nothing. The code checks \<open>isOnline\<close> only. An entry fails once, the retry is set for
  5 seconds, the next drain delivers the entry after one second, and the timer then
  sends a third request for the completed entry. An entry fails in three drains within
  two seconds and is failed; the timer of the first failure then sends a fourth request,
  and when that one succeeds the failed entry becomes completed.
\<close>

theorem retry_timer_ignores_entry_state:
  "status (heap (run completed_before_retry (initial True 1000)) ! 0) = ''completed'' \<and>
   sends_of 0 (run completed_before_retry (initial True 1000)) = 2 \<and>
   sends_of 0 (step (TimerFire 0) (run completed_before_retry (initial True 1000))) = 3 \<and>
   status (heap (run failed_before_retry (initial True 1000)) ! 0) = ''failed'' \<and>
   sends_of 0 (run failed_before_retry (initial True 1000)) = 3 \<and>
   sends_of 0 (step (TimerFire 0) (run failed_before_retry (initial True 1000))) = 4 \<and>
   status (heap (run [TimerFire 0, Response 0 (Result True)]
                  (run failed_before_retry (initial True 1000))) ! 0) = ''completed''"
  by (simp add: completed_before_retry_def failed_before_retry_def manager_defs)

text \<open>A delivery attempt made by a retry timer: when its request fails, the state is
  left as it was, apart from the task that ends.\<close>

lemma failed_retry_attempt_changes_nothing:
  assumes "k < length (tasks s)" and "tasks s ! k = RetryTask cur" and "out \<noteq> Result True"
  shows "resume k out s = s\<lparr>tasks := remove_nth k (tasks s)\<rparr>"
  using assms
  by (cases out) (auto simp: resume_def retry_attempt_def syncItem_settle_def split: bool.splits)

text \<open>
  C9 asks that every delivery attempt that fails with the attempts still below
  \<open>maxRetries\<close> is counted and followed by a retry after \<open>5000 * retries\<close> milliseconds.
  The attempt made by a retry timer is not: the alert is queued online at time 1000,
  its first request fails (\<open>retries\<close> becomes 1 and a timer is set for 5000
  milliseconds), the timer fires at 6000 and sends the second request, and that request
  fails. Two requests have been sent and have failed; \<open>retries\<close> is still 1, the entry
  is pending, and neither a timer nor a task is left for it.
\<close>

theorem failed_retry_attempt_schedules_nothing:
  "timers (run [Add ''sos-alert'' ''flood'' ''/api/sos'' ''POST'' (2001/2), Response 0 Rejected]
             (initial True 1000)) =
     [\<lparr>delay = 5000, setAt = 1000, target = 0\<rparr>] \<and>
   sends_of 0 (run retry_attempt_fails (initial True 1000)) = 2 \<and>
   retries (heap (run retry_attempt_fails (initial True 1000)) ! 0) = 1 \<and>
   status (heap (run retry_attempt_fails (initial True 1000)) ! 0) = ''pending'' \<and>
   timers (run retry_attempt_fails (initial True 1000)) = [] \<and>
   tasks (run retry_attempt_fails (initial True 1000)) = []"
  by (simp add: retry_attempt_fails_def manager_defs)

section \<open>Properties of the weather cache\<close>

text \<open>
  With nothing under the key \<open>getCachedWeatherData\<close> returns \<open>null\<close>. With a record
  stored at \<open>cachedAt\<close> it returns the record and leaves it stored when
  \<open>now - cachedAt \<le> maxAge\<close>, and otherwise removes it and returns \<open>null\<close>; \<open>maxAge\<close>
  is six hours in milliseconds.
\<close>

lemma getCachedWeatherData_by_age:
  "getCachedWeatherData now None = (None, None) \<and>
   (now - cachedAt \<le> maxAge \<longrightarrow>
      getCachedWeatherData now (Some (WeatherData d cachedAt)) =
      (Some (WeatherData d cachedAt), Some (WeatherData d cachedAt))) \<and>
   (\<not> now - cachedAt \<le> maxAge \<longrightarrow>
      getCachedWeatherData now (Some (WeatherData d cachedAt)) = (None, None)) \<and>
   maxAge = 21600000"
  by (simp add: getCachedWeatherData_def maxAge_def Let_def)

text \<open>5 h 59 min and 6 h 01 min after the record was stored.\<close>

lemma getCachedWeatherData_by_age_example:
  "getCachedWeatherData (1000 + 21540000) (Some (WeatherData ''rain'' 1000)) =
     (Some (WeatherData ''rain'' 1000), Some (WeatherData ''rain'' 1000)) \<and>
   getCachedWeatherData (1000 + 21660000) (Some (WeatherData ''rain'' 1000)) = (None, None)"
  using getCachedWeatherData_by_age [of "1000 + 21540000" 1000 "''rain''"]
    getCachedWeatherData_by_age [of "1000 + 21660000" 1000 "''rain''"]
  unfolding maxAge_def by auto

text \<open>
  C5 asks that \<open>getCachedWeatherData\<close> returns \<open>null\<close> when no weather record is stored.
  On a page where no weather data was ever cached, \<open>initializeOfflineStores\<close> has
  written \<open>[]\<close> under the key \<open>cachedWeatherData\<close>, and at any time
  \<open>getCachedWeatherData\<close> returns that array, not \<open>null\<close>, and leaves it under the key;
  \<open>isCacheValid\<close> is true.
\<close>

theorem placeholder_returned_as_weather_data:
  "getCachedWeatherData now (initializeOfflineStores_weather None) =
     (Some EmptyArray, Some EmptyArray) \<and>
   isCacheValid now (initializeOfflineStores_weather None)"
  by (simp add: getCachedWeatherData_def initializeOfflineStores_weather_def isCacheValid_def)

section \<open>Properties of the service worker\<close>

lemma caches_match_fetches [simp]:
  "caches_match (st\<lparr>fetches := f\<rparr>) u = caches_match st u"
  by (cases "static_cache st u") (simp_all add: caches_match_def)

lemma caches_match_puts [simp]:
  "caches_match (st\<lparr>puts := ps\<rparr>) u = caches_match st u"
  by (cases "static_cache st u") (simp_all add: caches_match_def)

lemma caches_match_static:
  "static_cache st u = Some r \<Longrightarrow> caches_match st u = Some r"
  by (simp add: caches_match_def)

text \<open>The put a handler has just started, when it settles.\<close>

lemma put_settles_last:
  "put_settles (length (puts st)) (cache_put name req r (st\<lparr>fetches := f\<rparr>)) =
     (if \<not> storable req r then st\<lparr>fetches := f\<rparr>
      else (case name of
              STATIC_CACHE \<Rightarrow> st\<lparr>fetches := f, static_cache := (static_cache st)(url req \<mapsto> r)\<rparr>
            | DYNAMIC_CACHE \<Rightarrow> st\<lparr>fetches := f, dynamic_cache := (dynamic_cache st)(url req \<mapsto> r)\<rparr>))"
  by (cases name) (simp_all add: put_settles_def cache_put_def Let_def nth_append)

text \<open>
  C6. A \<open>GET\<close> request that is classified as an API request (not a static file, path
  under \<open>/api/\<close>), for which \<open>fetch\<close> rejects and no cache has a response, is
  answered after the network attempt with the synthesized response: for \<open>/api/sync\<close>
  the empty data with \<open>offline: true\<close>, for \<open>/api/voice-query\<close> the canned
  acknowledgement, for any other path status 503 and the error
  \<open>Service unavailable offline\<close>.
\<close>

theorem offline_api_fallback:
  assumes "req_method req = ''GET''" and "\<not> isStaticFile req" and "isAPIRequest req"
    and "net req = None" and "caches_match st (url req) = None"
  shows "fetch_listener net root_url db_opens now new_id req st =
         (Respond
           (if pathname req = ''/api/sync'' then
              \<lparr>resp_status = 200, resp_headers = [(''Content-Type'', ''application/json'')],
               resp_body = Json (JObj [(''success'', JBool True),
                                       (''data'', JObj [(''sos'', JArr []), (''queries'', JArr []),
                                                        (''weather'', JArr [])]),
                                       (''offline'', JBool True)])\<rparr>
            else if pathname req = ''/api/voice-query'' then
              \<lparr>resp_status = 200, resp_headers = [(''Content-Type'', ''application/json'')],
               resp_body = Json (JObj [(''success'', JBool True),
                                       (''response'', JStr (''I'' @ [CHR 0x27] @
                                          ''m currently offline. Your question has been saved and I'' @
                                          [CHR 0x27] @ ''ll respond when connectivity is restored.'')),
                                       (''offline'', JBool True)])\<rparr>
            else
              \<lparr>resp_status = 503, resp_headers = [(''Content-Type'', ''application/json'')],
               resp_body = Json (JObj [(''success'', JBool False),
                                       (''error'', JStr ''Service unavailable offline''),
                                       (''offline'', JBool True)])\<rparr>),
          st\<lparr>fetches := fetches st @ [req]\<rparr>)"
  using assms
  by (simp add: fetch_listener_def handleAPIRequest_def fetch_def handleOfflineAPIResponse_def)

text \<open>The theorem at \<open>GET /api/sync\<close> with no connection and empty caches.\<close>

theorem offline_api_fallback_witness:
  "fst (fetch_listener offline_net start_page True 1000 (2001/2) get_sync empty_sw) =
     Respond \<lparr>resp_status = 200, resp_headers = [(''Content-Type'', ''application/json'')],
               resp_body = Json (JObj [(''success'', JBool True),
                                       (''data'', JObj [(''sos'', JArr []), (''queries'', JArr []),
                                                        (''weather'', JArr [])]),
                                       (''offline'', JBool True)])\<rparr>"
proof -
  have h1: "req_method get_sync = ''GET''" by (simp add: get_sync_def)
  have h2: "\<not> isStaticFile get_sync" by (simp add: get_sync_def isStaticFile_def suffix_to_prefix)
  have h3: "isAPIRequest get_sync" by (simp add: get_sync_def isAPIRequest_def)
  have h4: "offline_net get_sync = None" by (simp add: offline_net_def)
  have h5: "caches_match empty_sw (url get_sync) = None" by (simp add: caches_match_def empty_sw_def)
  have p: "pathname get_sync = ''/api/sync''" by (simp add: get_sync_def)
  show ?thesis
    using offline_api_fallback [where req = get_sync and net = offline_net and st = empty_sw
        and root_url = start_page and db_opens = True and now = 1000 and new_id = "2001/2",
        OF h1 h2 h3 h4 h5] p
    by simp
qed

text \<open>
  C7, as amended. A \<open>GET\<close> request classified as a static file is served cache first: a
  cached response is returned with no call of \<open>fetch\<close> and no change of state. On a miss
  the network is asked. An \<open>ok\<close> response is returned and a \<open>put\<close> of it into the static
  cache is started, which is not awaited; once that \<open>put\<close> has settled, the same request
  finds the response in the cache if the cache accepts it (a URL over \<open>http\<close> or
  \<open>https\<close>, a status other than 206 and no \<open>Vary: *\<close>), and otherwise both caches are
  as they were. A response that is not \<open>ok\<close> is returned and nothing is stored. When
  \<open>fetch\<close> rejects as well, the answer is status 503 with the text
  \<open>File not available offline\<close>.
\<close>

theorem static_cache_first:
  assumes "req_method req = ''GET''" and "isStaticFile req"
  shows "(caches_match st (url req) = Some c \<longrightarrow>
            fetch_listener net root_url db_opens now new_id req st = (Respond c, st)) \<and>
         (caches_match st (url req) = None \<and> net req = Some r \<and> ok r \<longrightarrow>
            fetch_listener net root_url db_opens now new_id req st =
              (Respond r,
               st\<lparr>fetches := fetches st @ [req],
                  puts := puts st @
                    [\<lparr>put_into = STATIC_CACHE, put_request = req, put_response = r\<rparr>]\<rparr>) \<and>
            (storable req r \<longrightarrow>
               caches_match
                 (put_settles (length (puts st))
                    (snd (fetch_listener net root_url db_opens now new_id req st)))
                 (url req) = Some r) \<and>
            (\<not> storable req r \<longrightarrow>
               put_settles (length (puts st))
                 (snd (fetch_listener net root_url db_opens now new_id req st)) =
               st\<lparr>fetches := fetches st @ [req]\<rparr>)) \<and>
         (caches_match st (url req) = None \<and> net req = Some r \<and> \<not> ok r \<longrightarrow>
            fetch_listener net root_url db_opens now new_id req st =
              (Respond r, st\<lparr>fetches := fetches st @ [req]\<rparr>)) \<and>
         (caches_match st (url req) = None \<and> net req = None \<longrightarrow>
            fetch_listener net root_url db_opens now new_id req st =
              (Respond \<lparr>resp_status = 503,
                        resp_headers = [(''content-type'', ''text/plain;charset=UTF-8'')],
                        resp_body = Text ''File not available offline''\<rparr>,
               st\<lparr>fetches := fetches st @ [req]\<rparr>))"
proof -
  have hit: "caches_match st (url req) = Some c \<Longrightarrow>
      fetch_listener net root_url db_opens now new_id req st = (Respond c, st)"
    using assms by (simp add: fetch_listener_def handleStaticFile_def)
  have miss: "caches_match st (url req) = None \<Longrightarrow> net req = Some r \<Longrightarrow> ok r \<Longrightarrow>
      fetch_listener net root_url db_opens now new_id req st =
        (Respond r, cache_put STATIC_CACHE req r (st\<lparr>fetches := fetches st @ [req]\<rparr>))"
    using assms by (simp add: fetch_listener_def handleStaticFile_def fetch_def)
  have started: "cache_put STATIC_CACHE req r (st\<lparr>fetches := fetches st @ [req]\<rparr>) =
      st\<lparr>fetches := fetches st @ [req],
         puts := puts st @ [\<lparr>put_into = STATIC_CACHE, put_request = req, put_response = r\<rparr>]\<rparr>"
    by (simp add: cache_put_def)
  have stored: "storable req r \<Longrightarrow>
      caches_match (put_settles (length (puts st))
        (cache_put STATIC_CACHE req r (st\<lparr>fetches := fetches st @ [req]\<rparr>))) (url req) = Some r"
    by (simp add: put_settles_last caches_match_static)
  have refused: "\<not> storable req r \<Longrightarrow>
      put_settles (length (puts st))
        (cache_put STATIC_CACHE req r (st\<lparr>fetches := fetches st @ [req]\<rparr>)) =
      st\<lparr>fetches := fetches st @ [req]\<rparr>"
    by (simp add: put_settles_last)
  have not_ok: "caches_match st (url req) = None \<Longrightarrow> net req = Some r \<Longrightarrow> \<not> ok r \<Longrightarrow>
      fetch_listener net root_url db_opens now new_id req st =
        (Respond r, st\<lparr>fetches := fetches st @ [req]\<rparr>)"
    using assms by (simp add: fetch_listener_def handleStaticFile_def fetch_def)
  have down: "caches_match st (url req) = None \<Longrightarrow> net req = None \<Longrightarrow>
      fetch_listener net root_url db_opens now new_id req st =
        (Respond \<lparr>resp_status = 503,
                  resp_headers = [(''content-type'', ''text/plain;charset=UTF-8'')],
                  resp_body = Text ''File not available offline''\<rparr>,
         st\<lparr>fetches := fetches st @ [req]\<rparr>)"
    using assms by (simp add: fetch_listener_def handleStaticFile_def fetch_def)
  show ?thesis
    using hit miss started stored refused not_ok down by (auto simp del: caches_match_fetches)
qed

text \<open>The theorem at \<open>/css/app.css\<close>: fetched on the first request and in the cache once
  the put has settled, served from the cache on the second request although the network
  is down, and 503 when it was never cached.\<close>

theorem static_cache_first_witness:
  "fetch_listener css_net start_page True 1000 (2001/2) get_css empty_sw =
     (Respond css_response,
      empty_sw\<lparr>fetches := [get_css],
               puts := [\<lparr>put_into = STATIC_CACHE, put_request = get_css,
                         put_response = css_response\<rparr>]\<rparr>) \<and>
   fetch_listener offline_net start_page True 2000 (4001/2) get_css
       (put_settles 0
          (snd (fetch_listener css_net start_page True 1000 (2001/2) get_css empty_sw))) =
     (Respond css_response,
      put_settles 0
        (snd (fetch_listener css_net start_page True 1000 (2001/2) get_css empty_sw))) \<and>
   fst (fetch_listener offline_net start_page True 1000 (2001/2) get_css empty_sw) =
     Respond \<lparr>resp_status = 503,
               resp_headers = [(''content-type'', ''text/plain;charset=UTF-8'')],
               resp_body = Text ''File not available offline''\<rparr>"
proof -
  let ?st1 = "put_settles 0
    (snd (fetch_listener css_net start_page True 1000 (2001/2) get_css empty_sw))"
  have h1: "req_method get_css = ''GET''" by (simp add: get_css_def)
  have h2: "isStaticFile get_css" by (simp add: get_css_def isStaticFile_def)
  have m0: "caches_match empty_sw (url get_css) = None" by (simp add: caches_match_def empty_sw_def)
  have n1: "css_net get_css = Some css_response" by (simp add: css_net_def get_css_def)
  have n0: "offline_net get_css = None" by (simp add: offline_net_def)
  have k: "ok css_response" by (simp add: ok_def css_response_def)
  have v: "storable get_css css_response"
    by (simp add: storable_def vary_star_def header_get_def lower_def get_css_def css_response_def)
  have f: "fetches empty_sw = []" "puts empty_sw = []" by (simp_all add: empty_sw_def)
  have a0: "fetch_listener css_net start_page True 1000 (2001/2) get_css empty_sw =
     (Respond css_response,
      empty_sw\<lparr>fetches := fetches empty_sw @ [get_css],
               puts := puts empty_sw @
                 [\<lparr>put_into = STATIC_CACHE, put_request = get_css,
                   put_response = css_response\<rparr>]\<rparr>)"
    and m2: "caches_match
      (put_settles (length (puts empty_sw))
         (snd (fetch_listener css_net start_page True 1000 (2001/2) get_css empty_sw)))
      (url get_css) = Some css_response"
    using static_cache_first [OF h1 h2, where st = empty_sw and net = css_net
        and root_url = start_page and db_opens = True and now = 1000 and new_id = "2001/2"
        and r = css_response]
      m0 n1 k v by blast+
  have a: "fetch_listener css_net start_page True 1000 (2001/2) get_css empty_sw =
     (Respond css_response,
      empty_sw\<lparr>fetches := [get_css],
               puts := [\<lparr>put_into = STATIC_CACHE, put_request = get_css,
                         put_response = css_response\<rparr>]\<rparr>)"
    using a0 f by simp
  have m1: "caches_match ?st1 (url get_css) = Some css_response"
    using m2 f by simp
  have b: "fetch_listener offline_net start_page True 2000 (4001/2) get_css ?st1 =
      (Respond css_response, ?st1)"
    using static_cache_first [OF h1 h2, where st = ?st1 and net = offline_net
        and root_url = start_page and db_opens = True and now = 2000 and new_id = "4001/2"
        and c = css_response] m1
    by blast
  have c: "fst (fetch_listener offline_net start_page True 1000 (2001/2) get_css empty_sw) =
     Respond \<lparr>resp_status = 503,
               resp_headers = [(''content-type'', ''text/plain;charset=UTF-8'')],
               resp_body = Text ''File not available offline''\<rparr>"
    using static_cache_first [OF h1 h2, where st = empty_sw and net = offline_net
        and root_url = start_page and db_opens = True and now = 1000 and new_id = "2001/2"]
      m0 n0 by simp
  show ?thesis using a b c by blast
qed

text \<open>
  C7 as stated fails: a request for a range of an image is classified as a static file,
  misses the cache and is answered by the server with status 206, which is \<open>ok\<close>. The
  response is returned, but the cache refuses it: once the put has settled nothing is
  cached, and the same request with the network down is answered with status 503.
\<close>

theorem partial_response_not_cached_counterexample:
  "isStaticFile get_image_range \<and> ok partial_image \<and>
   fst (fetch_listener range_net start_page True 1000 (2001/2) get_image_range empty_sw) =
     Respond partial_image \<and>
   caches_match
     (put_settles 0
        (snd (fetch_listener range_net start_page True 1000 (2001/2) get_image_range empty_sw)))
     (url get_image_range) = None \<and>
   fst (fetch_listener offline_net start_page True 2000 (4001/2) get_image_range
     (put_settles 0
        (snd (fetch_listener range_net start_page True 1000 (2001/2) get_image_range empty_sw)))) =
     Respond \<lparr>resp_status = 503,
               resp_headers = [(''content-type'', ''text/plain;charset=UTF-8'')],
               resp_body = Text ''File not available offline''\<rparr>"
  by (simp add: fetch_listener_def handleStaticFile_def fetch_def cache_put_def put_settles_def
      storable_def ok_def isStaticFile_def caches_match_def get_image_range_def partial_image_def
      range_net_def offline_net_def empty_sw_def Let_def)

text \<open>A \<open>POST\<close> request that has a body and for which \<open>fetch\<close> rejects: the handler
  rejects, no response is given and nothing is recorded.\<close>

lemma failed_post_with_body_rejects:
  assumes "req_method req = ''POST''" and "net req = None" and "req_body req = Some b"
  shows "fetch_listener net root_url db_opens now new_id req st =
           (RespondRejected, st\<lparr>fetches := fetches st @ [req]\<rparr>)"
  using assms by (simp add: fetch_listener_def handlePostRequest_def fetch_def)

text \<open>A \<open>POST\<close> request without a body for which \<open>fetch\<close> rejects is never looked up in a
  cache and the caller receives status 202 with the body \<open>{success: false, message:
  'Request queued for sync when online', queued: true}\<close>. The request is recorded in the
  service worker's own store \<open>failedRequests\<close> (the sync queue of the offline manager is
  not involved) when the database opens and the id is not taken; when the database does
  not open, the error is logged and the store is left as it was.\<close>

lemma failed_post_without_body_is_stored:
  assumes "req_method req = ''POST''" and "net req = None" and "req_body req = None"
  shows "fst (fetch_listener net root_url db_opens now new_id req st) =
           Respond \<lparr>resp_status = 202, resp_headers = [(''Content-Type'', ''application/json'')],
                     resp_body = Json (JObj [(''success'', JBool False),
                                   (''message'', JStr ''Request queued for sync when online''),
                                   (''queued'', JBool True)])\<rparr> \<and>
         static_cache (snd (fetch_listener net root_url db_opens now new_id req st)) =
           static_cache st \<and>
         dynamic_cache (snd (fetch_listener net root_url db_opens now new_id req st)) =
           dynamic_cache st \<and>
         (db_opens \<and> new_id \<notin> fr_id ` set (failedRequests st) \<longrightarrow>
            failedRequests (snd (fetch_listener net root_url db_opens now new_id req st)) =
            failedRequests st @
              [\<lparr>fr_url = url req, fr_method = req_method req, fr_headers = req_headers req,
                fr_body = [], fr_timestamp = now, fr_id = new_id\<rparr>]) \<and>
         (\<not> db_opens \<longrightarrow>
            failedRequests (snd (fetch_listener net root_url db_opens now new_id req st)) =
            failedRequests st)"
  using assms
  by (simp add: fetch_listener_def handlePostRequest_def fetch_def storeFailedRequest_def Let_def)

text \<open>
  C8 asks that a write request whose delivery fails is queued for later delivery and
  that the caller receives the result that says so. The alert posted to \<open>/api/sos\<close>
  with a JSON body, with no connection, an empty store and a database that opens: the
  handler rejects, so that the caller receives a network error and not status 202, and
  nothing is recorded in \<open>failedRequests\<close>.
\<close>

theorem failed_post_is_lost:
  "fetch_listener offline_net start_page True 1000 (2001/2) post_sos empty_sw =
     (RespondRejected, empty_sw\<lparr>fetches := [post_sos]\<rparr>) \<and>
   failedRequests
     (snd (fetch_listener offline_net start_page True 1000 (2001/2) post_sos empty_sw)) = []"
  by (simp add: fetch_listener_def handlePostRequest_def fetch_def post_sos_def offline_net_def
      empty_sw_def)

end
